theory Spec2Isabelle
  imports Complex_Main "HOL-Library.Sublist"
begin

section \<open>Values and exceptions of the Python program\<close>

text \<open>
  The program is the single module \<^verbatim>\<open>gallica.py\<close>. Python strings are modelled as
  \<^typ>\<open>string\<close>, one \<^typ>\<open>char\<close> per code point below 256. Values decoded from JSON
  (\<^verbatim>\<open>r.json()\<close>) are the type \<open>json\<close>; a \<^verbatim>\<open>dict\<close> is the list of its items
  and is read with \<^const>\<open>map_of\<close>. Python floats are modelled as \<^typ>\<open>real\<close>.
\<close>

datatype json =
    JNull
  | JBool bool
  | JNum rat
  | JStr string
  | JArr "json list"
  | JObj "(string \<times> json) list"

text \<open>The messages of the \<^verbatim>\<open>RuntimeError\<close>s the module raises itself.\<close>

datatype failure =
    ManifestUnreachable
  | NoPagesFound
  | NoImageService
  | DownloadExhausted nat string
  | MissingImages nat string
  | CannotAssemble

datatype error =
    ValueError
  | HTTPError nat
  | ConnectionError
  | JSONDecodeError
  | RuntimeError failure
  | AttributeError
  | TypeError
  | KeyError
  | IndexError
  | ImportError
  | OSError

text \<open>Truth value of a Python object, as \<^verbatim>\<open>if x:\<close> and \<^verbatim>\<open>x or y\<close> test it.\<close>

fun truthy :: "json \<Rightarrow> bool" where
  "truthy JNull = False"
| "truthy (JBool b) = b"
| "truthy (JNum n) = (n \<noteq> 0)"
| "truthy (JStr s) = (s \<noteq> [])"
| "truthy (JArr xs) = (xs \<noteq> [])"
| "truthy (JObj kvs) = (kvs \<noteq> [])"

text \<open>\<^verbatim>\<open>x.get(key, default)\<close>: only a dict has the method.\<close>

fun py_get :: "json \<Rightarrow> string \<Rightarrow> json \<Rightarrow> error + json" where
  "py_get (JObj kvs) k d = Inr (case map_of kvs k of Some v \<Rightarrow> v | None \<Rightarrow> d)"
| "py_get _ k d = Inl AttributeError"

text \<open>\<^verbatim>\<open>x[0]\<close>: a list or a string is indexed, a dict from JSON has string keys only.\<close>

fun py_index0 :: "json \<Rightarrow> error + json" where
  "py_index0 (JArr []) = Inl IndexError"
| "py_index0 (JArr (x # xs)) = Inr x"
| "py_index0 (JStr []) = Inl IndexError"
| "py_index0 (JStr (c # cs)) = Inr (JStr [c])"
| "py_index0 (JObj kvs) = Inl KeyError"
| "py_index0 _ = Inl TypeError"

text \<open>\<^verbatim>\<open>x[key]\<close> with a string key.\<close>

fun py_item :: "json \<Rightarrow> string \<Rightarrow> error + json" where
  "py_item (JObj kvs) k = (case map_of kvs k of Some v \<Rightarrow> Inr v | None \<Rightarrow> Inl KeyError)"
| "py_item _ k = Inl TypeError"

fun is_list :: "json \<Rightarrow> bool" where
  "is_list (JArr xs) = True"
| "is_list _ = False"

section \<open>URL / ARK parsing\<close>

text \<open>
  \<^verbatim>\<open>ARK_RE = re.compile(r"/ark:/12148/([^/?#]+)", re.IGNORECASE)\<close>.
  Under \<^verbatim>\<open>IGNORECASE\<close> the letters of the pattern match either case; the other
  characters of the pattern match themselves only.
\<close>

definition ark_prefix :: string where
  "ark_prefix = ''/ark:/12148/''"

fun ci_char :: "char \<Rightarrow> char \<Rightarrow> bool" where
  "ci_char p c =
     (if p = CHR ''a'' then c = CHR ''a'' \<or> c = CHR ''A''
      else if p = CHR ''r'' then c = CHR ''r'' \<or> c = CHR ''R''
      else if p = CHR ''k'' then c = CHR ''k'' \<or> c = CHR ''K''
      else c = p)"

text \<open>Does the literal part of the pattern match at the head of the text?\<close>

fun ci_match :: "string \<Rightarrow> string \<Rightarrow> bool" where
  "ci_match [] s = True"
| "ci_match (p # ps) [] = False"
| "ci_match (p # ps) (c # cs) = (ci_char p c \<and> ci_match ps cs)"

definition delim :: "char \<Rightarrow> bool" where
  "delim c = (c = CHR ''/'' \<or> c = CHR ''?'' \<or> c = CHR ''#'')"

text \<open>
  A match of the whole pattern anchored at the head of the text: the literal part, then
  the greedy group \<^verbatim>\<open>[^/?#]+\<close>, which needs one character at least.
\<close>

definition ark_match_here :: "string \<Rightarrow> string option" where
  "ark_match_here s =
     (if ci_match ark_prefix s
      then (let g = takeWhile (\<lambda>c. \<not> delim c) (drop (length ark_prefix) s)
            in if g = [] then None else Some g)
      else None)"

text \<open>\<^verbatim>\<open>ARK_RE.search(url)\<close>: the leftmost position where the pattern matches.\<close>

fun ark_search :: "string \<Rightarrow> string option" where
  "ark_search [] = None"
| "ark_search (c # cs) =
     (case ark_match_here (c # cs) of
        Some g \<Rightarrow> Some g
      | None \<Rightarrow> ark_search cs)"

text \<open>\<^verbatim>\<open>str.isspace\<close> on the code points below 256, and \<^verbatim>\<open>str.strip()\<close>.\<close>

definition is_space :: "char \<Rightarrow> bool" where
  "is_space c =
     (let n = of_char c :: nat
      in (9 \<le> n \<and> n \<le> 13) \<or> (28 \<le> n \<and> n \<le> 32) \<or> n = 133 \<or> n = 160)"

definition strip :: "string \<Rightarrow> string" where
  "strip s = rev (dropWhile is_space (rev (dropWhile is_space s)))"

definition ark_from_url :: "string \<Rightarrow> error + string" where
  "ark_from_url url =
     (case ark_search url of
        None \<Rightarrow> Inl ValueError
      | Some g \<Rightarrow> Inr (strip g))"

text \<open>
  The pattern as the specification words it, with the letters as written: an occurrence
  of \<^verbatim>\<open>/ark:/12148/<token>\<close> at position \<open>i\<close>, the token being \<open>tok\<close> and ending at
  \<^verbatim>\<open>/\<close>, \<^verbatim>\<open>?\<close>, \<^verbatim>\<open>#\<close> or the end of the string.
\<close>

definition spec_occurs_at :: "string \<Rightarrow> nat \<Rightarrow> string \<Rightarrow> bool" where
  "spec_occurs_at url i tok =
     (let rest = drop (i + length ark_prefix + length tok) url
      in take (length ark_prefix + length tok) (drop i url) = ark_prefix @ tok
         \<and> tok \<noteq> []
         \<and> list_all (\<lambda>c. \<not> delim c) tok
         \<and> (rest = [] \<or> delim (hd rest)))"

text \<open>
  The same occurrence as the regular expression reads it: letters in either case, and a
  token of one character at least.
\<close>

definition occurs_at :: "string \<Rightarrow> nat \<Rightarrow> string \<Rightarrow> bool" where
  "occurs_at url i tok =
     (let rest = drop (i + length ark_prefix + length tok) url
      in ci_match ark_prefix (drop i url)
         \<and> take (length tok) (drop (i + length ark_prefix) url) = tok
         \<and> tok \<noteq> []
         \<and> list_all (\<lambda>c. \<not> delim c) tok
         \<and> (rest = [] \<or> delim (hd rest)))"

text \<open>
  A string lacks the pattern, letters as written, when no position starts with
  \<^verbatim>\<open>/ark:/12148/\<close> followed by a character of a token.
\<close>

definition spec_lacks_pattern :: "string \<Rightarrow> bool" where
  "spec_lacks_pattern url =
     list_all (\<lambda>i. \<not> (take (length ark_prefix) (drop i url) = ark_prefix
                        \<and> drop (i + length ark_prefix) url \<noteq> []
                        \<and> \<not> delim (hd (drop (i + length ark_prefix) url))))
       [0..<length url]"

text \<open>No match of the regular expression starts at position \<open>i\<close>, whatever the token.\<close>

definition no_match_at :: "string \<Rightarrow> nat \<Rightarrow> bool" where
  "no_match_at url i =
     (\<not> (ci_match ark_prefix (drop i url)
         \<and> drop (i + length ark_prefix) url \<noteq> []
         \<and> \<not> delim (hd (drop (i + length ark_prefix) url))))"

section \<open>Canvas image service\<close>

text \<open>
  The IIIF v2 branch of \<^verbatim>\<open>canvas_image_service_id\<close>, entered when \<^verbatim>\<open>imgs\<close> is true.
  It is outside any \<^verbatim>\<open>try\<close>: an exception propagates (\<open>Inl\<close>). \<open>Inr None\<close> is the
  branch falling through because \<^verbatim>\<open>sid\<close> is false.
\<close>

definition v2_service_id :: "json \<Rightarrow> error + json option" where
  "v2_service_id imgs =
     (case py_index0 imgs of Inl e \<Rightarrow> Inl e | Inr img0 \<Rightarrow>
     (case py_get img0 ''resource'' (JObj []) of Inl e \<Rightarrow> Inl e | Inr res \<Rightarrow>
     (case py_get res ''service'' (JObj []) of Inl e \<Rightarrow> Inl e | Inr svc \<Rightarrow>
     (case py_get svc ''@id'' JNull of Inl e \<Rightarrow> Inl e | Inr a \<Rightarrow>
        if truthy a then Inr (Some a)
        else (case py_get svc ''id'' JNull of Inl e \<Rightarrow> Inl e | Inr b \<Rightarrow>
                if truthy b then Inr (Some b) else Inr None)))))"

text \<open>
  The IIIF v3 branch, entered when \<^verbatim>\<open>items\<close> is true. It is inside
  \<^verbatim>\<open>try: ... except Exception: pass\<close>: \<open>None\<close> is the branch falling through, by an
  exception or because \<^verbatim>\<open>svc\<close> is not a non-empty list; \<open>Some v\<close> is
  \<^verbatim>\<open>return svc[0].get("id") or svc[0].get("@id")\<close> returning \<open>v\<close>.
\<close>

definition v3_service_id :: "json \<Rightarrow> json option" where
  "v3_service_id items =
     (case py_index0 items of Inl e \<Rightarrow> None | Inr annopage \<Rightarrow>
     (case py_item annopage ''items'' of Inl e \<Rightarrow> None | Inr annos \<Rightarrow>
     (case py_index0 annos of Inl e \<Rightarrow> None | Inr anno0 \<Rightarrow>
     (case py_item anno0 ''body'' of Inl e \<Rightarrow> None | Inr body \<Rightarrow>
     (case py_get body ''service'' JNull of Inl e \<Rightarrow> None | Inr svc \<Rightarrow>
        if is_list svc \<and> truthy svc
        then (case py_index0 svc of Inl e \<Rightarrow> None | Inr svc0 \<Rightarrow>
             (case py_get svc0 ''id'' JNull of Inl e \<Rightarrow> None | Inr a \<Rightarrow>
                if truthy a then Some a
                else (case py_get svc0 ''@id'' JNull of Inl e \<Rightarrow> None | Inr b \<Rightarrow> Some b)))
        else None)))))"

definition canvas_image_service_id :: "json \<Rightarrow> error + json" where
  "canvas_image_service_id canvas =
     (case py_get canvas ''images'' JNull of Inl e \<Rightarrow> Inl e | Inr imgs \<Rightarrow>
     (case (if truthy imgs then v2_service_id imgs else Inr None) of
        Inl e \<Rightarrow> Inl e
      | Inr (Some sid) \<Rightarrow> Inr sid
      | Inr None \<Rightarrow>
         (case py_get canvas ''items'' (JArr []) of Inl e \<Rightarrow> Inl e | Inr items \<Rightarrow>
         (case (if truthy items then v3_service_id items else None) of
            Some sid \<Rightarrow> Inr sid
          | None \<Rightarrow> Inl (RuntimeError NoImageService)))))"

section \<open>HTTP helpers\<close>

text \<open>
  A response object of \<^verbatim>\<open>requests\<close>: its status code, its body, the value
  \<^verbatim>\<open>r.json()\<close> returns (\<open>None\<close> when it raises a decoding error), and whether the
  body arrives whole (a streamed body may break off after the bytes in \<open>content\<close>).
\<close>

datatype response = Response (status: nat) (content: string) (decoded: "json option") (complete: bool)

text \<open>What the program does to the outside, in the order it does it.\<close>

datatype event = Get string | Sleep real

text \<open>
  The state the program works on: the files of the workspace (path to bytes) and the
  events so far. The length of \<open>trace\<close> is the logical time.
\<close>

record world =
  files :: "string \<rightharpoonup> string"
  trace :: "event list"

text \<open>
  The outside: what the server answers to a request for a URL issued at a logical time
  (\<open>None\<close>: \<^verbatim>\<open>session.get\<close> raises, by a connection error or the time-out), and the
  value \<^verbatim>\<open>random.random()\<close> returns at that time.
\<close>

record env =
  server :: "nat \<Rightarrow> string \<Rightarrow> response option"
  rand :: "nat \<Rightarrow> real"

definition MAX_TRIES :: nat where "MAX_TRIES = 8"
definition BASE_BACKOFF :: real where "BASE_BACKOFF = 6 / 10"
definition MAX_BACKOFF :: real where "MAX_BACKOFF = 12"

text \<open>\<^verbatim>\<open>session.get(url, timeout=TIMEOUT, stream=stream)\<close>; a body read at once must arrive whole.\<close>

definition session_get :: "env \<Rightarrow> string \<Rightarrow> bool \<Rightarrow> world \<Rightarrow> (error + response) \<times> world" where
  "session_get env url stream w =
     ((case server env (length (trace w)) url of
         None \<Rightarrow> Inl ConnectionError
       | Some r \<Rightarrow> if \<not> stream \<and> \<not> complete r then Inl ConnectionError else Inr r),
      w\<lparr>trace := trace w @ [Get url]\<rparr>)"

definition time_sleep :: "real \<Rightarrow> world \<Rightarrow> world" where
  "time_sleep t w = w\<lparr>trace := trace w @ [Sleep t]\<rparr>"

text \<open>\<^verbatim>\<open>r.raise_for_status()\<close> raises for the statuses 400 to 599 only.\<close>

definition raise_for_status :: "response \<Rightarrow> error + unit" where
  "raise_for_status r =
     (if 400 \<le> status r \<and> status r < 600 then Inl (HTTPError (status r)) else Inr ())"

definition response_json :: "response \<Rightarrow> error + json" where
  "response_json r = (case decoded r of None \<Rightarrow> Inl JSONDecodeError | Some j \<Rightarrow> Inr j)"

definition fetch :: "env \<Rightarrow> string \<Rightarrow> bool \<Rightarrow> world \<Rightarrow> (error + response) \<times> world" where
  "fetch env url expect_json w =
     (case session_get env url False w of
        (Inl e, w1) \<Rightarrow> (Inl e, w1)
      | (Inr r, w1) \<Rightarrow>
          (case raise_for_status r of
             Inl e \<Rightarrow> (Inl e, w1)
           | Inr u \<Rightarrow>
               if expect_json
               then (case response_json r of Inl e \<Rightarrow> (Inl e, w1) | Inr j \<Rightarrow> (Inr r, w1))
               else (Inr r, w1)))"

definition viewer_urls :: "string \<Rightarrow> string list" where
  "viewer_urls ark =
     [''https://gallica.bnf.fr/ark:/12148/'' @ ark @ ''/f1.item'',
      ''https://gallica.bnf.fr/ark:/12148/'' @ ark]"

text \<open>
  The loop of \<^verbatim>\<open>warmup\<close>: the first request that does not raise ends it; the status is
  not looked at. When every request raised, the last exception is raised.
\<close>

fun warmup_loop :: "env \<Rightarrow> string list \<Rightarrow> error option \<Rightarrow> world \<Rightarrow> (error + unit) \<times> world" where
  "warmup_loop env [] last_err w =
     (case last_err of None \<Rightarrow> (Inr (), w) | Some e \<Rightarrow> (Inl e, w))"
| "warmup_loop env (u # us) last_err w =
     (case session_get env u False w of
        (Inr r, w1) \<Rightarrow> (Inr (), w1)
      | (Inl e, w1) \<Rightarrow> warmup_loop env us (Some e) w1)"

definition warmup :: "env \<Rightarrow> string \<Rightarrow> world \<Rightarrow> (error + unit) \<times> world" where
  "warmup env ark w = warmup_loop env (viewer_urls ark) None w"

section \<open>IIIF manifest\<close>

definition manifest_url :: "string \<Rightarrow> string" where
  "manifest_url ark = ''https://gallica.bnf.fr/iiif/ark:/12148/'' @ ark @ ''/manifest.json''"

definition manifest_suffix :: string where
  "manifest_suffix = ''/manifest.json''"

definition quote :: "char \<Rightarrow> bool" where
  "quote c = (c = CHR 0x22 \<or> c = CHR 0x27)"

text \<open>
  The tail \<^verbatim>\<open>[^\"']+/manifest\.json\<close> of both patterns, on the run \<open>r\<close> of characters
  up to the next quote: the greedy group gives back characters until the suffix follows,
  so the cut is the last place, after one character at least, where the suffix starts.
\<close>

definition manifest_cut :: "string \<Rightarrow> nat option" where
  "manifest_cut r =
     (case filter (\<lambda>k. take (length manifest_suffix) (drop k r) = manifest_suffix)
             (rev [1..<Suc (length r)]) of
        [] \<Rightarrow> None
      | k # ks \<Rightarrow> Some k)"

definition manifest_match_here :: "string \<Rightarrow> string \<Rightarrow> string option" where
  "manifest_match_here pre s =
     (if take (length pre) s = pre
      then (let r = takeWhile (\<lambda>c. \<not> quote c) (drop (length pre) s)
            in case manifest_cut r of
                 None \<Rightarrow> None
               | Some k \<Rightarrow> Some (pre @ take k r @ manifest_suffix))
      else None)"

fun manifest_search :: "string \<Rightarrow> string \<Rightarrow> string option" where
  "manifest_search pre [] = None"
| "manifest_search pre (c # cs) =
     (case manifest_match_here pre (c # cs) of
        Some m \<Rightarrow> Some m
      | None \<Rightarrow> manifest_search pre cs)"

definition extract_manifest_from_html :: "string \<Rightarrow> string option" where
  "extract_manifest_from_html html =
     (case manifest_search ''https://gallica.bnf.fr/iiif/ark:/12148/'' html of
        Some m \<Rightarrow> Some m
      | None \<Rightarrow>
          (case manifest_search ''/iiif/ark:/12148/'' html of
             Some m \<Rightarrow> Some (''https://gallica.bnf.fr'' @ m)
           | None \<Rightarrow> None))"

text \<open>
  The body of the loop \<^verbatim>\<open>for attempt in range(1, 4)\<close> of \<^verbatim>\<open>get_manifest\<close>: \<open>Some j\<close>
  is \<^verbatim>\<open>return r.json()\<close>, \<open>None\<close> is the \<^verbatim>\<open>except Exception: pass\<close>. The warm-up and
  the fetch are in one \<^verbatim>\<open>try\<close>: when the warm-up raises, the fetch is not made.
\<close>

definition warmup_round :: "env \<Rightarrow> string \<Rightarrow> nat \<Rightarrow> world \<Rightarrow> json option \<times> world" where
  "warmup_round env ark attempt w =
     (let w0 = time_sleep (7 / 10 * real attempt) w in
      case warmup env ark w0 of
        (Inl e, w1) \<Rightarrow> (None, w1)
      | (Inr u, w1) \<Rightarrow>
          (case fetch env (manifest_url ark) True w1 of
             (Inl e, w2) \<Rightarrow> (None, w2)
           | (Inr r, w2) \<Rightarrow>
               (case response_json r of Inl e \<Rightarrow> (None, w2) | Inr j \<Rightarrow> (Some j, w2))))"

text \<open>
  The body of the loop over \<^verbatim>\<open>html_urls\<close>: \<open>None\<close> is \<^verbatim>\<open>continue\<close> or the end of the
  body without a \<^verbatim>\<open>return\<close>.
\<close>

definition html_attempt :: "env \<Rightarrow> string \<Rightarrow> world \<Rightarrow> json option \<times> world" where
  "html_attempt env u w =
     (case session_get env u False w of
        (Inl e, w1) \<Rightarrow> (None, w1)
      | (Inr rr, w1) \<Rightarrow>
          (case raise_for_status rr of
             Inl e \<Rightarrow> (None, w1)
           | Inr x \<Rightarrow>
               (case extract_manifest_from_html (content rr) of
                  None \<Rightarrow> (None, w1)
                | Some alt \<Rightarrow>
                    (case fetch env alt True w1 of
                       (Inl e, w2) \<Rightarrow> (None, w2)
                     | (Inr r, w2) \<Rightarrow>
                         (case response_json r of
                            Inl e \<Rightarrow> (None, w2)
                          | Inr j \<Rightarrow> (Some j, w2))))))"

text \<open>A \<^verbatim>\<open>for\<close> loop whose body may return: the first \<open>Some\<close> ends it.\<close>

fun first_return :: "('a \<Rightarrow> world \<Rightarrow> json option \<times> world) \<Rightarrow> 'a list \<Rightarrow> world \<Rightarrow> json option \<times> world" where
  "first_return body [] w = (None, w)"
| "first_return body (x # xs) w =
     (case body x w of
        (Some j, w1) \<Rightarrow> (Some j, w1)
      | (None, w1) \<Rightarrow> first_return body xs w1)"

definition html_fallback :: "env \<Rightarrow> string \<Rightarrow> world \<Rightarrow> (error + json) \<times> world" where
  "html_fallback env ark w =
     (case first_return (html_attempt env) (viewer_urls ark) w of
        (Some j, w1) \<Rightarrow> (Inr j, w1)
      | (None, w1) \<Rightarrow> (Inl (RuntimeError ManifestUnreachable), w1))"

definition get_manifest :: "env \<Rightarrow> string \<Rightarrow> world \<Rightarrow> (error + json) \<times> world" where
  "get_manifest env ark w =
     (case fetch env (manifest_url ark) True w of
        (Inr r, w1) \<Rightarrow> (response_json r, w1)
      | (Inl (HTTPError s), w1) \<Rightarrow>
          if s \<noteq> 403 then (Inl (HTTPError s), w1)
          else (case first_return (warmup_round env ark) [1..<4] w1 of
                  (Some j, w2) \<Rightarrow> (Inr j, w2)
                | (None, w2) \<Rightarrow> html_fallback env ark w2)
      | (Inl e, w1) \<Rightarrow> (Inl e, w1))"

section \<open>Download with backoff\<close>

text \<open>\<^verbatim>\<open>out_path.exists() and out_path.stat().st_size > 50_000\<close>.\<close>

definition already_ok :: "world \<Rightarrow> string \<Rightarrow> bool" where
  "already_ok w out_path =
     (case files w out_path of None \<Rightarrow> False | Some bytes \<Rightarrow> length bytes > 50000)"

text \<open>\<^verbatim>\<open>random.uniform(a, b)\<close> is \<^verbatim>\<open>a + (b - a) * random()\<close>.\<close>

definition uniform :: "env \<Rightarrow> real \<Rightarrow> real \<Rightarrow> world \<Rightarrow> real" where
  "uniform env a b w = a + (b - a) * rand env (length (trace w))"

definition retryable :: "nat \<Rightarrow> bool" where
  "retryable s = (s = 403 \<or> s = 429 \<or> s = 503)"

text \<open>
  The branch for status 200: the body goes to the sibling \<^verbatim>\<open>.part\<close> file, which then
  replaces the destination; a body that breaks off leaves the \<^verbatim>\<open>.part\<close> file and
  raises.
\<close>

definition store_body :: "response \<Rightarrow> string \<Rightarrow> real \<Rightarrow> world \<Rightarrow> (error + unit) \<times> world" where
  "store_body r out_path sleep w =
     (let tmp = out_path @ ''.part'';
          w1 = w\<lparr>files := (files w)(tmp \<mapsto> content r)\<rparr>
      in if \<not> complete r then (Inl ConnectionError, w1)
         else (let w2 = w1\<lparr>files := (files w1)(out_path \<mapsto> content r, tmp := None)\<rparr>
               in (Inr (), if sleep > 0 then time_sleep sleep w2 else w2)))"

text \<open>The time slept after a retryable status at the given attempt.\<close>

definition backoff_wait :: "nat \<Rightarrow> real \<Rightarrow> real" where
  "backoff_wait attempt jitter = min (BASE_BACKOFF * 2 ^ (attempt - 1) + jitter) MAX_BACKOFF"

text \<open>
  The loop \<^verbatim>\<open>for attempt in range(1, MAX_TRIES + 1)\<close>, over the attempts left; when
  none is left the \<^verbatim>\<open>RuntimeError\<close> after the loop is raised.
\<close>

fun download_attempts :: "env \<Rightarrow> string \<Rightarrow> string \<Rightarrow> real \<Rightarrow> nat list \<Rightarrow> world \<Rightarrow> (error + unit) \<times> world" where
  "download_attempts env url out_path sleep [] w =
     (Inl (RuntimeError (DownloadExhausted MAX_TRIES url)), w)"
| "download_attempts env url out_path sleep (attempt # rest) w =
     (case session_get env url True w of
        (Inl e, w1) \<Rightarrow> (Inl e, w1)
      | (Inr r, w1) \<Rightarrow>
          if status r = 200 then store_body r out_path sleep w1
          else if retryable (status r)
          then download_attempts env url out_path sleep rest
                 (time_sleep (backoff_wait attempt (uniform env 0 (35 / 100) w1)) w1)
          else (case raise_for_status r of
                  Inl e \<Rightarrow> (Inl e, w1)
                | Inr u \<Rightarrow> download_attempts env url out_path sleep rest w1))"

definition download_with_backoff :: "env \<Rightarrow> string \<Rightarrow> string \<Rightarrow> real \<Rightarrow> world \<Rightarrow> (error + unit) \<times> world" where
  "download_with_backoff env url out_path sleep w =
     (if already_ok w out_path then (Inr (), w)
      else download_attempts env url out_path sleep [1..<Suc MAX_TRIES] w)"

text \<open>Reading a trace: the URLs requested and the times slept, in order.\<close>

fun requests_of :: "event list \<Rightarrow> string list" where
  "requests_of [] = []"
| "requests_of (Get u # evs) = u # requests_of evs"
| "requests_of (Sleep t # evs) = requests_of evs"

fun sleeps_of :: "event list \<Rightarrow> real list" where
  "sleeps_of [] = []"
| "sleeps_of (Get u # evs) = sleeps_of evs"
| "sleeps_of (Sleep t # evs) = t # sleeps_of evs"

text \<open>
  The trace of attempts that all meet a retryable status: a request, then the backoff
  for the attempt's number and jitter.
\<close>

definition backoff_events :: "string \<Rightarrow> nat list \<Rightarrow> real list \<Rightarrow> event list" where
  "backoff_events url as js = concat (map2 (\<lambda>a j. [Get url, Sleep (backoff_wait a j)]) as js)"

text \<open>
  \<^verbatim>\<open>parallel_download\<close> submits every job and counts the completions; it never reads a
  future's result, so an exception of a job is dropped there. The pool is modelled by
  the order in which it runs the jobs, which is the order of the list given here.
\<close>

fun parallel_download :: "env \<Rightarrow> (string \<times> string) list \<Rightarrow> real \<Rightarrow> world \<Rightarrow> world" where
  "parallel_download env [] sleep w = w"
| "parallel_download env ((url, out_path) # jobs) sleep w =
     parallel_download env jobs sleep (snd (download_with_backoff env url out_path sleep w))"

section \<open>PDF assembly\<close>

text \<open>
  The two libraries, as far as \<^verbatim>\<open>assemble_pdf\<close> depends on them: whether the import
  succeeds, and whether the calls raise on the given arguments.
\<close>

record pdf_env =
  img2pdf_installed :: bool
  img2pdf_raises :: "string list \<Rightarrow> string \<Rightarrow> bool"
  pillow_installed :: bool
  pillow_open_raises :: "string \<Rightarrow> bool"
  pillow_save_raises :: "string \<Rightarrow> string list \<Rightarrow> string \<Rightarrow> bool"

text \<open>
  What is written to \<^verbatim>\<open>out_pdf\<close>: the call that produced it with its arguments,
  \<^verbatim>\<open>img2pdf.convert(paths)\<close> or \<^verbatim>\<open>first.save(out_pdf, save_all=True, append_images=rest)\<close>.
  Both libraries lay the pages out in the order of their arguments.
\<close>

datatype document = Img2pdfDoc "string list" | PillowDoc string "string list"

fun doc_pages :: "document \<Rightarrow> string list" where
  "doc_pages (Img2pdfDoc ps) = ps"
| "doc_pages (PillowDoc first rest) = first # rest"

text \<open>The loop that opens every image; \<open>None\<close> when an open raises.\<close>

fun open_images :: "pdf_env \<Rightarrow> string list \<Rightarrow> string list \<Rightarrow> string list option" where
  "open_images pe [] pil_images = Some pil_images"
| "open_images pe (p # ps) pil_images =
     (if pillow_open_raises pe p then None else open_images pe ps (pil_images @ [p]))"

definition pillow_fallback :: "pdf_env \<Rightarrow> string list \<Rightarrow> string \<Rightarrow> error + document" where
  "pillow_fallback pe images out_pdf =
     (if \<not> pillow_installed pe then Inl (RuntimeError CannotAssemble)
      else (case open_images pe images [] of
              None \<Rightarrow> Inl (RuntimeError CannotAssemble)
            | Some [] \<Rightarrow> Inl (RuntimeError CannotAssemble)
            | Some (first # rest) \<Rightarrow>
                if pillow_save_raises pe first rest out_pdf
                then Inl (RuntimeError CannotAssemble)
                else Inr (PillowDoc first rest)))"

definition assemble_pdf :: "pdf_env \<Rightarrow> string list \<Rightarrow> string \<Rightarrow> error + document" where
  "assemble_pdf pe images out_pdf =
     (if img2pdf_installed pe \<and> \<not> img2pdf_raises pe images out_pdf
      then Inr (Img2pdfDoc images)
      else pillow_fallback pe images out_pdf)"

section \<open>The pages of the workspace\<close>

definition digit_char :: "nat \<Rightarrow> char" where
  "digit_char d = ''0123456789'' ! d"

fun decimal :: "nat \<Rightarrow> string" where
  "decimal n = (if n < 10 then [digit_char n] else decimal (n div 10) @ [digit_char (n mod 10)])"

declare decimal.simps [simp del]

text \<open>\<^verbatim>\<open>f"page_{i:04d}.jpg"\<close> under \<^verbatim>\<open>img_dir\<close>.\<close>

definition page_file :: "nat \<Rightarrow> string" where
  "page_file i =
     ''page_'' @ replicate (4 - length (decimal i)) (CHR ''0'') @ decimal i @ ''.jpg''"

definition page_path :: "string \<Rightarrow> nat \<Rightarrow> string" where
  "page_path img_dir i = img_dir @ ''/'' @ page_file i"

text \<open>
  \<^verbatim>\<open>iiif_jpg_url\<close>: \<^verbatim>\<open>rstrip("/")\<close> is a method of strings; \<^verbatim>\<open>max_width\<close> is printed in
  decimal.
\<close>

definition rstrip_slash :: "string \<Rightarrow> string" where
  "rstrip_slash s = rev (dropWhile (\<lambda>c. c = CHR ''/'') (rev s))"

definition str_int :: "int \<Rightarrow> string" where
  "str_int i = (if i < 0 then ''-'' @ decimal (nat (- i)) else decimal (nat i))"

fun iiif_jpg_url :: "json \<Rightarrow> int \<Rightarrow> error + string" where
  "iiif_jpg_url (JStr service_id) max_width =
     Inr (rstrip_slash service_id @ ''/full/'' @ str_int max_width @ '',/0/default.jpg'')"
| "iiif_jpg_url _ max_width = Inl AttributeError"

text \<open>
  The loop of \<^verbatim>\<open>main\<close> that builds the jobs, over \<^verbatim>\<open>enumerate(canvases, start=1)\<close>:
  a page already in the workspace gives no job.
\<close>

fun build_jobs :: "world \<Rightarrow> string \<Rightarrow> int \<Rightarrow> (nat \<times> json) list \<Rightarrow> (string \<times> string) list
                     \<Rightarrow> error + (string \<times> string) list" where
  "build_jobs w img_dir max_width [] jobs = Inr jobs"
| "build_jobs w img_dir max_width ((i, canvas) # rest) jobs =
     (let out_img = page_path img_dir i
      in if already_ok w out_img then build_jobs w img_dir max_width rest jobs
         else (case canvas_image_service_id canvas of
                 Inl e \<Rightarrow> Inl e
               | Inr sid \<Rightarrow>
                   (case iiif_jpg_url sid max_width of
                      Inl e \<Rightarrow> Inl e
                    | Inr url \<Rightarrow> build_jobs w img_dir max_width rest (jobs @ [(url, out_img)]))))"

definition enumerate1 :: "'a list \<Rightarrow> (nat \<times> 'a) list" where
  "enumerate1 xs = zip [1..<length xs + 1] xs"

text \<open>
  The end of \<^verbatim>\<open>main\<close>, from the list of images on: the list is built from the number
  of canvases alone, a missing file is an error, and the list goes to \<^verbatim>\<open>assemble_pdf\<close>.
\<close>

definition expected_images :: "string \<Rightarrow> 'a list \<Rightarrow> string list" where
  "expected_images img_dir canvases = map (page_path img_dir) [1..<length canvases + 1]"

definition main_assemble :: "pdf_env \<Rightarrow> string \<Rightarrow> 'a list \<Rightarrow> string \<Rightarrow> world \<Rightarrow> error + document" where
  "main_assemble pe img_dir canvases out_pdf w =
     (let images = expected_images img_dir canvases;
          missing = filter (\<lambda>p. files w p = None) images
      in if missing \<noteq> [] then Inl (RuntimeError (MissingImages (length missing) (hd missing)))
         else assemble_pdf pe images out_pdf)"

text \<open>
  The download step and the assembly of \<^verbatim>\<open>main\<close> for the jobs built: the pool runs the
  jobs in the order \<open>schedule\<close> puts them.
\<close>

definition main_download_assemble ::
  "env \<Rightarrow> pdf_env \<Rightarrow> ((string \<times> string) list \<Rightarrow> (string \<times> string) list) \<Rightarrow> (string \<times> string) list \<Rightarrow> real
     \<Rightarrow> string \<Rightarrow> 'a list \<Rightarrow> string \<Rightarrow> world \<Rightarrow> error + document" where
  "main_download_assemble env pe schedule jobs sleep img_dir canvases out_pdf w =
     main_assemble pe img_dir canvases out_pdf
       (if jobs \<noteq> [] then parallel_download env (schedule jobs) sleep w else w)"

section \<open>Safe cleanup\<close>

text \<open>
  The file system as \<^verbatim>\<open>safe_rmtree\<close> sees it: \<^verbatim>\<open>Path.resolve\<close> (a resolved path is the
  list of its components, the root being the empty list), the home and the working
  directory, and how \<^verbatim>\<open>shutil.rmtree\<close> ends on a directory: \<open>None\<close> when it removes
  the whole tree, \<open>Some kept\<close> when it raises with the entries \<open>kept\<close> left in place.
\<close>

record os_env =
  resolve :: "string \<Rightarrow> string list"
  home :: string
  cwd :: string
  rmtree_stops :: "string list \<Rightarrow> string list set option"

text \<open>\<^verbatim>\<open>Path.name\<close>: the last component, empty for the root.\<close>

definition path_name :: "string list \<Rightarrow> string" where
  "path_name p = (if p = [] then [] else last p)"

definition rmtree :: "os_env \<Rightarrow> string list \<Rightarrow> string list set \<Rightarrow> (error + unit) \<times> string list set" where
  "rmtree oe d tree =
     (case rmtree_stops oe d of
        None \<Rightarrow> (Inr (), {p \<in> tree. \<not> prefix d p})
      | Some kept \<Rightarrow> (Inl OSError, {p \<in> tree. \<not> prefix d p \<or> p \<in> kept}))"

definition safe_rmtree :: "os_env \<Rightarrow> string \<Rightarrow> string \<Rightarrow> string list set \<Rightarrow> (error + bool) \<times> string list set" where
  "safe_rmtree oe workdir ark tree =
     (let wd = resolve oe workdir;
          forbidden = {resolve oe ''/'', resolve oe (home oe), resolve oe (cwd oe)}
      in if wd \<in> forbidden then (Inr False, tree)
         else (let expected = ''gallica_'' @ ark
               in if path_name wd \<noteq> expected then (Inr False, tree)
                  else (case rmtree oe wd tree of
                          (Inl e, tree1) \<Rightarrow> (Inl e, tree1)
                        | (Inr u, tree1) \<Rightarrow> (Inr True, tree1))))"

text \<open>
  The condition under which the cleaner may delete: the resolved path is none of the
  root, the home and the working directory, and its name is \<^verbatim>\<open>gallica_<ark>\<close>.
\<close>

definition deletion_allowed :: "os_env \<Rightarrow> string \<Rightarrow> string \<Rightarrow> bool" where
  "deletion_allowed oe workdir ark =
     (resolve oe workdir \<noteq> resolve oe ''/'' \<and>
      resolve oe workdir \<noteq> resolve oe (home oe) \<and>
      resolve oe workdir \<noteq> resolve oe (cwd oe) \<and>
      path_name (resolve oe workdir) = ''gallica_'' @ ark)"

text \<open>
  A round of the warm-up retry as the specification words it: sleep, warm up with its
  failure tolerated silently, then retry the direct fetch of the manifest.
\<close>

definition spec_warmup_round :: "env \<Rightarrow> string \<Rightarrow> nat \<Rightarrow> world \<Rightarrow> json option \<times> world" where
  "spec_warmup_round env ark attempt w =
     (let w0 = time_sleep (7 / 10 * real attempt) w;
          w1 = snd (warmup env ark w0)
      in case fetch env (manifest_url ark) True w1 of
           (Inl e, w2) \<Rightarrow> (None, w2)
         | (Inr r, w2) \<Rightarrow>
             (case response_json r of Inl e \<Rightarrow> (None, w2) | Inr j \<Rightarrow> (Some j, w2)))"

section \<open>Retry and backoff of a download\<close>

lemma uniform_jitter:
  assumes "0 \<le> rand env (length (trace w))" "rand env (length (trace w)) < 1"
  shows "0 \<le> uniform env 0 (35 / 100) w \<and> uniform env 0 (35 / 100) w < 35 / 100"
  using assms by (simp add: uniform_def)

lemma download_attempts_retryable:
  assumes srv: "\<forall>t. \<exists>r. server env t url = Some r \<and> retryable (status r)"
    and rnd: "\<forall>t. 0 \<le> rand env t \<and> rand env t < 1"
  shows "\<exists>js. length js = length as \<and> (\<forall>j \<in> set js. 0 \<le> j \<and> j < 35 / 100) \<and>
           download_attempts env url out_path sleep as w =
             (Inl (RuntimeError (DownloadExhausted MAX_TRIES url)),
              w\<lparr>trace := trace w @ backoff_events url as js\<rparr>)"
proof (induction as arbitrary: w)
  case Nil
  show ?case by (simp add: backoff_events_def)
next
  case (Cons a as)
  obtain r where r: "server env (length (trace w)) url = Some r" "retryable (status r)"
    using srv by blast
  define w1 where "w1 = w\<lparr>trace := trace w @ [Get url]\<rparr>"
  define j where "j = uniform env 0 (35 / 100) w1"
  define w2 where "w2 = time_sleep (backoff_wait a j) w1"
  have jr: "0 \<le> j \<and> j < 35 / 100"
    unfolding j_def using rnd by (intro uniform_jitter) auto
  have not200: "status r \<noteq> 200" using r(2) by (auto simp: retryable_def)
  have step: "download_attempts env url out_path sleep (a # as) w =
                download_attempts env url out_path sleep as w2"
    using r not200 by (simp add: session_get_def w1_def w2_def j_def)
  from Cons.IH[of w2] obtain js where js: "length js = length as"
      "\<forall>j \<in> set js. 0 \<le> j \<and> j < 35 / 100"
      "download_attempts env url out_path sleep as w2 =
         (Inl (RuntimeError (DownloadExhausted MAX_TRIES url)),
          w2\<lparr>trace := trace w2 @ backoff_events url as js\<rparr>)"
    by blast
  have "w2\<lparr>trace := trace w2 @ backoff_events url as js\<rparr> =
        w\<lparr>trace := trace w @ backoff_events url (a # as) (j # js)\<rparr>"
    by (simp add: w2_def w1_def time_sleep_def backoff_events_def)
  with step js jr show ?case
    by (intro exI[of _ "j # js"]) simp
qed

lemma requests_of_backoff:
  "length js = length as \<Longrightarrow> requests_of (backoff_events url as js) = replicate (length as) url"
  by (induction as js rule: list_induct2') (auto simp: backoff_events_def)

lemma sleeps_of_backoff:
  "length js = length as \<Longrightarrow>
     sleeps_of (backoff_events url as js) = map2 backoff_wait as js"
  by (induction as js rule: list_induct2') (auto simp: backoff_events_def)

text \<open>
  Claim C1. A job that is not skipped and whose every request meets status 403, 429 or
  503 makes exactly 8 requests and then raises the error of the exhausted retries. After
  the request of attempt \<open>n\<close> it sleeps \<open>min (0.6 * 2 ^ (n - 1) + jitter) 12\<close>, where the
  jitter \<^verbatim>\<open>random.uniform(0, 0.35)\<close> lies in \<open>[0, 0.35)\<close> because \<^verbatim>\<open>random.random()\<close>
  lies in \<open>[0, 1)\<close>; so no sleep is longer than 12 seconds. No file is written.
\<close>

theorem download_retryable_exhausts:
  assumes "\<not> already_ok w out_path"
    and "\<forall>t. \<exists>r. server env t url = Some r \<and> retryable (status r)"
    and "\<forall>t. 0 \<le> rand env t \<and> rand env t < 1"
  shows "\<exists>js. length js = 8 \<and> (\<forall>j \<in> set js. 0 \<le> j \<and> j < 35 / 100) \<and>
           download_with_backoff env url out_path sleep w =
             (Inl (RuntimeError (DownloadExhausted 8 url)),
              w\<lparr>trace := trace w @ backoff_events url [1..<9] js\<rparr>) \<and>
           requests_of (backoff_events url [1..<9] js) = replicate 8 url \<and>
           sleeps_of (backoff_events url [1..<9] js) =
             map2 (\<lambda>attempt j. min (6 / 10 * 2 ^ (attempt - 1) + j) 12) [1..<9] js \<and>
           (\<forall>t \<in> set (sleeps_of (backoff_events url [1..<9] js)). t \<le> 12)"
proof -
  from download_attempts_retryable[OF assms(2,3), of "[1..<Suc MAX_TRIES]" out_path sleep w]
  obtain js where js: "length js = length [1..<Suc MAX_TRIES]"
      "\<forall>j \<in> set js. 0 \<le> j \<and> j < 35 / 100"
      "download_attempts env url out_path sleep [1..<Suc MAX_TRIES] w =
         (Inl (RuntimeError (DownloadExhausted MAX_TRIES url)),
          w\<lparr>trace := trace w @ backoff_events url [1..<Suc MAX_TRIES] js\<rparr>)"
    by blast
  have len: "length js = 8" using js(1) by (simp add: MAX_TRIES_def)
  have len': "length js = length [1..<9::nat]" using len by simp
  have run: "download_with_backoff env url out_path sleep w =
             (Inl (RuntimeError (DownloadExhausted 8 url)),
              w\<lparr>trace := trace w @ backoff_events url [1..<9] js\<rparr>)"
    using assms(1) js(3) by (simp add: download_with_backoff_def MAX_TRIES_def)
  have reqs: "requests_of (backoff_events url [1..<9] js) = replicate 8 url"
    using requests_of_backoff[OF len', of url] by simp
  have sl: "sleeps_of (backoff_events url [1..<9] js) =
             map2 (\<lambda>attempt j. min (6 / 10 * 2 ^ (attempt - 1) + j) 12) [1..<9] js"
    using sleeps_of_backoff[OF len', of url]
    by (simp add: backoff_wait_def[abs_def] BASE_BACKOFF_def MAX_BACKOFF_def)
  have bound: "\<forall>t \<in> set (sleeps_of (backoff_events url [1..<9] js)). t \<le> 12"
    unfolding sl by (auto dest!: set_zip_leftD simp: in_set_zip)
  from len js(2) run reqs sl bound show ?thesis by blast
qed

theorem download_retryable_exhausts_witness:
  "\<not> already_ok \<lparr>files = Map.empty, trace = []\<rparr> ''p'' \<and>
   retryable 503 \<and>
   fst (download_with_backoff \<lparr>server = \<lambda>t u. Some (Response 503 [] None True), rand = \<lambda>t. 0\<rparr>
          ''u'' ''p'' 0 \<lparr>files = Map.empty, trace = []\<rparr>) =
     Inl (RuntimeError (DownloadExhausted 8 ''u''))"
  using download_retryable_exhausts[of "\<lparr>files = Map.empty, trace = []\<rparr>" "''p''"
      "\<lparr>server = \<lambda>t u. Some (Response 503 [] None True), rand = \<lambda>t. 0\<rparr>" "''u''" 0]
  by (auto simp: already_ok_def retryable_def)

section \<open>Statuses that are neither 200 nor retryable\<close>

text \<open>
  A status that is not 200, not retryable and outside 400 to 599 falls through
  \<^verbatim>\<open>raise_for_status\<close>: the loop goes to its next attempt at once.
\<close>

lemma download_attempts_unhandled:
  assumes srv: "\<forall>t. \<exists>r. server env t url = Some r \<and> status r \<noteq> 200 \<and> \<not> retryable (status r)
                        \<and> \<not> (400 \<le> status r \<and> status r < 600)"
  shows "download_attempts env url out_path sleep as w =
           (Inl (RuntimeError (DownloadExhausted MAX_TRIES url)),
            w\<lparr>trace := trace w @ replicate (length as) (Get url)\<rparr>)"
proof (induction as arbitrary: w)
  case Nil
  show ?case by simp
next
  case (Cons a as)
  obtain r where r: "server env (length (trace w)) url = Some r" "status r \<noteq> 200"
      "\<not> retryable (status r)" "\<not> (400 \<le> status r \<and> status r < 600)"
    using srv by blast
  have "download_attempts env url out_path sleep (a # as) w =
          download_attempts env url out_path sleep as (w\<lparr>trace := trace w @ [Get url]\<rparr>)"
    using r by (auto simp: session_get_def raise_for_status_def)
  then show ?case
    by (simp add: Cons.IH replicate_append_same[symmetric] del: replicate_append_same)
qed

text \<open>
  Claim C9, as amended. At any attempt of the loop, a response whose status is in 400 to
  599 and is not 403, 429 or 503 ends the download at once with the HTTP error of that
  status: the request of this attempt is the last event, no sleep and no further request
  follow, whatever attempts were left.
\<close>

theorem download_http_error_is_immediate:
  assumes "server env (length (trace w)) url = Some r"
    and "400 \<le> status r" and "status r < 600" and "\<not> retryable (status r)"
  shows "download_attempts env url out_path sleep (attempt # rest) w =
           (Inl (HTTPError (status r)), w\<lparr>trace := trace w @ [Get url]\<rparr>)"
  using assms by (simp add: session_get_def raise_for_status_def)

theorem download_http_error_is_immediate_witness:
  "download_attempts \<lparr>server = \<lambda>t u. Some (Response 404 [] None True), rand = \<lambda>t. 0\<rparr>
     ''u'' ''p'' 0 [1, 2, 3] \<lparr>files = Map.empty, trace = []\<rparr> =
   (Inl (HTTPError 404), \<lparr>files = Map.empty, trace = [Get ''u'']\<rparr>)"
  using download_http_error_is_immediate[of
      "\<lparr>server = \<lambda>t u. Some (Response 404 [] None True), rand = \<lambda>t. 0\<rparr>"
      "\<lparr>files = Map.empty, trace = []\<rparr>" "''u''" "Response 404 [] None True" "''p''" 0 1 "[2, 3]"]
  by (simp add: retryable_def)

text \<open>
  The claim as stated speaks of every status outside 200 to 299 other than 403, 429 and
  503. Status 304 is one, and a job that always meets it is not ended by an HTTP error
  after its first request: it makes 8 requests and ends with the error of the exhausted
  retries.
\<close>

theorem download_counterexample_304:
  "\<not> (200 \<le> status (Response 304 [] None True) \<and> status (Response 304 [] None True) < 300) \<and>
   \<not> retryable (status (Response 304 [] None True)) \<and>
   download_with_backoff \<lparr>server = \<lambda>t u. Some (Response 304 [] None True), rand = \<lambda>t. 0\<rparr>
     ''u'' ''p'' 0 \<lparr>files = Map.empty, trace = []\<rparr> =
   (Inl (RuntimeError (DownloadExhausted 8 ''u'')),
    \<lparr>files = Map.empty, trace = replicate 8 (Get ''u'')\<rparr>)"
proof -
  have "download_attempts \<lparr>server = \<lambda>t u. Some (Response 304 [] None True), rand = \<lambda>t. 0\<rparr>
     ''u'' ''p'' 0 [1..<Suc MAX_TRIES] \<lparr>files = Map.empty, trace = []\<rparr> =
     (Inl (RuntimeError (DownloadExhausted MAX_TRIES ''u'')),
      \<lparr>files = Map.empty, trace = [] @ replicate (length [1..<Suc MAX_TRIES]) (Get ''u'')\<rparr>)"
    by (subst download_attempts_unhandled) (simp_all add: retryable_def)
  then show ?thesis
    by (simp add: download_with_backoff_def already_ok_def retryable_def MAX_TRIES_def)
qed

text \<open>
  Claim C10. A job that is not skipped and whose every response has a status in 201 to
  299 or in 300 to 399 is neither stored nor ended by an HTTP error: it makes 8 requests
  with no sleep between them and then raises the same error of the exhausted retries
  that the retryable statuses end in. No file is written.
\<close>

theorem download_unhandled_status_exhausts:
  assumes "\<not> already_ok w out_path"
    and "\<forall>t. \<exists>r. server env t url = Some r \<and>
             ((200 < status r \<and> status r < 300) \<or> (300 \<le> status r \<and> status r < 400))"
  shows "download_with_backoff env url out_path sleep w =
           (Inl (RuntimeError (DownloadExhausted 8 url)),
            w\<lparr>trace := trace w @ replicate 8 (Get url)\<rparr>) \<and>
         sleeps_of (replicate 8 (Get url)) = []"
proof -
  have srv: "\<forall>t. \<exists>r. server env t url = Some r \<and> status r \<noteq> 200 \<and> \<not> retryable (status r)
                        \<and> \<not> (400 \<le> status r \<and> status r < 600)"
  proof
    fix t
    from assms(2) obtain r where r: "server env t url = Some r"
      "(200 < status r \<and> status r < 300) \<or> (300 \<le> status r \<and> status r < 400)" by blast
    then show "\<exists>r. server env t url = Some r \<and> status r \<noteq> 200 \<and> \<not> retryable (status r)
                        \<and> \<not> (400 \<le> status r \<and> status r < 600)"
      by (auto simp: retryable_def)
  qed
  have "download_with_backoff env url out_path sleep w =
           (Inl (RuntimeError (DownloadExhausted 8 url)),
            w\<lparr>trace := trace w @ replicate 8 (Get url)\<rparr>)"
    using assms(1) download_attempts_unhandled[OF srv, of out_path sleep "[1..<Suc MAX_TRIES]" w]
    by (simp add: download_with_backoff_def MAX_TRIES_def)
  moreover have "sleeps_of (replicate 8 (Get url)) = []"
    by (simp add: numeral_eq_Suc)
  ultimately show ?thesis by simp
qed

theorem download_unhandled_status_exhausts_witness:
  "\<not> already_ok \<lparr>files = Map.empty, trace = []\<rparr> ''p'' \<and>
   download_with_backoff \<lparr>server = \<lambda>t u. Some (Response 204 [] None True), rand = \<lambda>t. 0\<rparr>
     ''u'' ''p'' 0 \<lparr>files = Map.empty, trace = []\<rparr> =
   (Inl (RuntimeError (DownloadExhausted 8 ''u'')),
    \<lparr>files = Map.empty, trace = replicate 8 (Get ''u'')\<rparr>)"
  using download_unhandled_status_exhausts[of "\<lparr>files = Map.empty, trace = []\<rparr>" "''p''"
      "\<lparr>server = \<lambda>t u. Some (Response 204 [] None True), rand = \<lambda>t. 0\<rparr>" "''u''" 0]
  by (simp add: already_ok_def)

section \<open>Pages already in the workspace\<close>

lemma page_path_examples:
  "page_path ''d'' 1 = ''d/page_0001.jpg''"
  "page_path ''d'' 2 = ''d/page_0002.jpg''"
  "page_path ''d'' 3 = ''d/page_0003.jpg''"
  by code_simp+

lemma page_path_Suc_0: "page_path ''d'' (Suc 0) = ''d/page_0001.jpg''"
  using page_path_examples(1) by simp

lemma parallel_download_all_present:
  "\<forall>(u, p) \<in> set jobs. already_ok w p \<Longrightarrow> parallel_download env jobs sleep w = w"
  by (induction jobs) (auto simp: download_with_backoff_def)

lemma build_jobs_all_present:
  "\<forall>(i, c) \<in> set ics. already_ok w (page_path img_dir i) \<Longrightarrow>
     build_jobs w img_dir max_width ics jobs = Inr jobs"
  by (induction ics) auto

text \<open>
  Claim C3, as amended. A job whose destination exists with more than 50,000 bytes returns
  at once: the result is success and the world is the same, so no request is in the
  trace. Hence a second run of the pool over the workspace the first run left, with the
  same jobs, changes nothing and requests nothing, provided every destination is larger
  than 50,000 bytes in that workspace; and \<^verbatim>\<open>main\<close> then builds no job at all.
\<close>

theorem skip_when_already_downloaded:
  "(already_ok w out_path \<longrightarrow> download_with_backoff env url out_path sleep w = (Inr (), w)) \<and>
   ((\<forall>(u, p) \<in> set jobs. already_ok (parallel_download env jobs sleep w0) p) \<longrightarrow>
      parallel_download env' jobs sleep' (parallel_download env jobs sleep w0) =
        parallel_download env jobs sleep w0) \<and>
   ((\<forall>(i, c) \<in> set (enumerate1 canvases). already_ok w (page_path img_dir i)) \<longrightarrow>
      build_jobs w img_dir max_width (enumerate1 canvases) [] = Inr [])"
  by (simp add: download_with_backoff_def parallel_download_all_present build_jobs_all_present)

text \<open>
  The second run is not free of requests in general: a page whose image has 50,000 bytes
  or fewer is stored by the first run and requested again by the second.
\<close>

theorem second_run_requests_counterexample:
  "fst (download_with_backoff \<lparr>server = \<lambda>t u. Some (Response 200 ''x'' None True), rand = \<lambda>t. 0\<rparr>
          ''u'' ''p'' 0 \<lparr>files = Map.empty, trace = []\<rparr>) = Inr () \<and>
   trace (parallel_download \<lparr>server = \<lambda>t u. Some (Response 200 ''x'' None True), rand = \<lambda>t. 0\<rparr>
            [(''u'', ''p'')] 0 \<lparr>files = Map.empty, trace = []\<rparr>) = [Get ''u''] \<and>
   trace (parallel_download \<lparr>server = \<lambda>t u. Some (Response 200 ''x'' None True), rand = \<lambda>t. 0\<rparr>
            [(''u'', ''p'')] 0
            (parallel_download \<lparr>server = \<lambda>t u. Some (Response 200 ''x'' None True), rand = \<lambda>t. 0\<rparr>
               [(''u'', ''p'')] 0 \<lparr>files = Map.empty, trace = []\<rparr>)) = [Get ''u'', Get ''u'']"
  by (simp add: download_with_backoff_def already_ok_def MAX_TRIES_def upt_rec session_get_def
        store_body_def)


theorem skip_when_already_downloaded_witness:
  "already_ok \<lparr>files = [''d/page_0001.jpg'' \<mapsto> replicate 50001 (CHR ''x'')], trace = []\<rparr> ''d/page_0001.jpg'' \<and>
   download_with_backoff \<lparr>server = \<lambda>t u. None, rand = \<lambda>t. 0\<rparr> ''u'' ''d/page_0001.jpg'' 0
       \<lparr>files = [''d/page_0001.jpg'' \<mapsto> replicate 50001 (CHR ''x'')], trace = []\<rparr> =
     (Inr (), \<lparr>files = [''d/page_0001.jpg'' \<mapsto> replicate 50001 (CHR ''x'')], trace = []\<rparr>) \<and>
   parallel_download \<lparr>server = \<lambda>t u. None, rand = \<lambda>t. 0\<rparr> [(''u'', ''d/page_0001.jpg'')] 0
       (parallel_download \<lparr>server = \<lambda>t u. None, rand = \<lambda>t. 0\<rparr> [(''u'', ''d/page_0001.jpg'')] 0
          \<lparr>files = [''d/page_0001.jpg'' \<mapsto> replicate 50001 (CHR ''x'')], trace = []\<rparr>) =
     \<lparr>files = [''d/page_0001.jpg'' \<mapsto> replicate 50001 (CHR ''x'')], trace = []\<rparr> \<and>
   build_jobs \<lparr>files = [''d/page_0001.jpg'' \<mapsto> replicate 50001 (CHR ''x'')], trace = []\<rparr> ''d'' 2000
       (enumerate1 [JNull]) [] = Inr []"
proof -
  define w where "w = \<lparr>files = [''d/page_0001.jpg'' \<mapsto> replicate 50001 (CHR ''x'')], trace = []\<rparr>"
  define env where "env = \<lparr>server = \<lambda>t u. None :: response option, rand = \<lambda>t. 0 :: real\<rparr>"
  have ok: "already_ok w ''d/page_0001.jpg''"
    by (simp add: w_def already_ok_def)
  have run: "parallel_download env [(''u'', ''d/page_0001.jpg'')] 0 w = w"
    using ok by (simp add: download_with_backoff_def)
  have h2: "\<forall>(u, p) \<in> set [(''u'', ''d/page_0001.jpg'')].
              already_ok (parallel_download env [(''u'', ''d/page_0001.jpg'')] 0 w) p"
    using ok run by simp
  have h3: "\<forall>(i, c) \<in> set (enumerate1 [JNull]). already_ok w (page_path ''d'' i)"
    using ok by (simp add: enumerate1_def page_path_Suc_0)
  note inst = skip_when_already_downloaded[where w = w and out_path = "''d/page_0001.jpg''"
      and env = env and url = "''u''" and sleep = 0 and jobs = "[(''u'', ''d/page_0001.jpg'')]"
      and ?w0.0 = w and env' = env and sleep' = 0 and canvases = "[JNull]" and img_dir = "''d''"
      and max_width = 2000]
  have "already_ok w ''d/page_0001.jpg'' \<and>
        download_with_backoff env ''u'' ''d/page_0001.jpg'' 0 w = (Inr (), w) \<and>
        parallel_download env [(''u'', ''d/page_0001.jpg'')] 0
          (parallel_download env [(''u'', ''d/page_0001.jpg'')] 0 w) = w \<and>
        build_jobs w ''d'' 2000 (enumerate1 [JNull]) [] = Inr []"
    using inst ok h2 h3 run by metis
  then show ?thesis unfolding w_def env_def .
qed

section \<open>Order of the assembled pages\<close>

lemma open_images_Some:
  "open_images pe ps pil_images = Some r \<Longrightarrow> r = pil_images @ ps"
proof (induction ps arbitrary: pil_images)
  case Nil
  then show ?case by simp
next
  case (Cons p ps)
  then have "open_images pe ps (pil_images @ [p]) = Some r"
    by (simp split: if_splits)
  then have "r = (pil_images @ [p]) @ ps" by (rule Cons.IH)
  then show ?case by simp
qed

lemma pillow_fallback_pages:
  "pillow_fallback pe images out_pdf = Inr d \<Longrightarrow> doc_pages d = images"
  by (auto simp: pillow_fallback_def split: if_splits option.splits list.splits
      dest!: open_images_Some)

lemma assemble_pdf_pages:
  "assemble_pdf pe images out_pdf = Inr d \<Longrightarrow> doc_pages d = images"
  by (auto simp: assemble_pdf_def split: if_splits dest: pillow_fallback_pages)

lemma main_assemble_calls:
  "main_assemble pe img_dir canvases out_pdf w = Inr d \<Longrightarrow>
     assemble_pdf pe (expected_images img_dir canvases) out_pdf = Inr d"
  by (auto simp: main_assemble_def Let_def split: if_splits)

text \<open>
  Claim C4. Whatever order the pool runs the jobs in (\<open>schedule\<close>) and whatever the
  downloads did to the workspace, when \<^verbatim>\<open>main\<close> produces a document for \<open>N\<close>
  canvases, \<^verbatim>\<open>assemble_pdf\<close> was called on the paths of the pages 1 to \<open>N\<close> in
  ascending order, and the document has exactly these pages in this order, page \<open>k + 1\<close>
  at position \<open>k\<close>, with either library.
\<close>

theorem assembled_pages_in_ordinal_order:
  assumes "main_download_assemble env pe schedule jobs sleep img_dir canvases out_pdf w = Inr d"
  shows "assemble_pdf pe (map (page_path img_dir) [1..<length canvases + 1]) out_pdf = Inr d \<and>
         doc_pages d = map (page_path img_dir) [1..<length canvases + 1] \<and>
         length (doc_pages d) = length canvases \<and>
         (\<forall>k < length canvases. doc_pages d ! k = page_path img_dir (k + 1))"
proof -
  have call: "assemble_pdf pe (expected_images img_dir canvases) out_pdf = Inr d"
    using assms unfolding main_download_assemble_def by (rule main_assemble_calls)
  then have pages: "doc_pages d = expected_images img_dir canvases"
    by (rule assemble_pdf_pages)
  have nth: "\<forall>k < length canvases. doc_pages d ! k = page_path img_dir (k + 1)"
    unfolding pages expected_images_def by (simp del: upt_Suc)
  from call pages nth show ?thesis
    by (simp add: expected_images_def del: upt_Suc)
qed

lemma page_path_Suc_Suc_0: "page_path ''d'' (Suc (Suc 0)) = ''d/page_0002.jpg''"
  using page_path_examples(2) by (simp add: numeral_2_eq_2)

theorem assembled_pages_in_ordinal_order_witness:
  "main_download_assemble
     \<lparr>server = \<lambda>t u. Some (Response 200 u None True), rand = \<lambda>t. 0\<rparr>
     \<lparr>img2pdf_installed = False, img2pdf_raises = \<lambda>ps out. False, pillow_installed = True,
        pillow_open_raises = \<lambda>p. False, pillow_save_raises = \<lambda>f r out. False\<rparr>
     rev [(''u1'', ''d/page_0001.jpg''), (''u2'', ''d/page_0002.jpg'')] 0 ''d'' [JNull, JNull] ''out.pdf''
     \<lparr>files = Map.empty, trace = []\<rparr> = Inr (PillowDoc ''d/page_0001.jpg'' [''d/page_0002.jpg'']) \<and>
   doc_pages (PillowDoc ''d/page_0001.jpg'' [''d/page_0002.jpg'']) =
     map (page_path ''d'') [1..<length [JNull, JNull] + 1]"
proof -
  have run: "main_download_assemble
     \<lparr>server = \<lambda>t u. Some (Response 200 u None True), rand = \<lambda>t. 0\<rparr>
     \<lparr>img2pdf_installed = False, img2pdf_raises = \<lambda>ps out. False, pillow_installed = True,
        pillow_open_raises = \<lambda>p. False, pillow_save_raises = \<lambda>f r out. False\<rparr>
     rev [(''u1'', ''d/page_0001.jpg''), (''u2'', ''d/page_0002.jpg'')] 0 ''d'' [JNull, JNull] ''out.pdf''
     \<lparr>files = Map.empty, trace = []\<rparr> = Inr (PillowDoc ''d/page_0001.jpg'' [''d/page_0002.jpg''])"
    by (simp add: main_download_assemble_def main_assemble_def expected_images_def upt_rec
          page_path_Suc_0 page_path_Suc_Suc_0 download_with_backoff_def already_ok_def MAX_TRIES_def
          session_get_def store_body_def assemble_pdf_def pillow_fallback_def)
  from assembled_pages_in_ordinal_order[OF run] run show ?thesis by simp
qed

section \<open>Choice of the assembly strategy\<close>

lemma pillow_fallback_error:
  "pillow_fallback pe images out_pdf = Inl e \<Longrightarrow> e = RuntimeError CannotAssemble"
  by (auto simp: pillow_fallback_def split: if_splits option.splits list.splits)

text \<open>
  Claim C8, as amended. The Pillow fallback writes the document only when the primary
  attempt raised: \<^verbatim>\<open>img2pdf\<close> is not installed, or it is installed and the conversion
  or the writing of the output raised. When the primary attempt does not raise, its
  document is the result. When neither library is installed the assembly fails with the
  error that carries the installation guidance for both; every failure of the fallback
  ends in that same error.
\<close>

theorem fallback_when_primary_raises:
  "(assemble_pdf pe images out_pdf = Inr (PillowDoc first rest) \<longrightarrow>
      \<not> img2pdf_installed pe \<or> img2pdf_raises pe images out_pdf) \<and>
   (img2pdf_installed pe \<and> \<not> img2pdf_raises pe images out_pdf \<longrightarrow>
      assemble_pdf pe images out_pdf = Inr (Img2pdfDoc images)) \<and>
   (\<not> (img2pdf_installed pe \<and> \<not> img2pdf_raises pe images out_pdf) \<longrightarrow>
      assemble_pdf pe images out_pdf = pillow_fallback pe images out_pdf) \<and>
   (\<not> img2pdf_installed pe \<and> \<not> pillow_installed pe \<longrightarrow>
      assemble_pdf pe images out_pdf = Inl (RuntimeError CannotAssemble)) \<and>
   (assemble_pdf pe images out_pdf = Inl e \<longrightarrow> e = RuntimeError CannotAssemble)"
proof -
  have a: "assemble_pdf pe images out_pdf = Inr (PillowDoc first rest) \<longrightarrow>
      \<not> img2pdf_installed pe \<or> img2pdf_raises pe images out_pdf"
    by (auto simp: assemble_pdf_def)
  have b: "img2pdf_installed pe \<and> \<not> img2pdf_raises pe images out_pdf \<longrightarrow>
      assemble_pdf pe images out_pdf = Inr (Img2pdfDoc images)"
    by (simp add: assemble_pdf_def)
  have c: "\<not> (img2pdf_installed pe \<and> \<not> img2pdf_raises pe images out_pdf) \<longrightarrow>
      assemble_pdf pe images out_pdf = pillow_fallback pe images out_pdf"
    by (simp add: assemble_pdf_def)
  have d: "\<not> img2pdf_installed pe \<and> \<not> pillow_installed pe \<longrightarrow>
      assemble_pdf pe images out_pdf = Inl (RuntimeError CannotAssemble)"
    by (simp add: assemble_pdf_def pillow_fallback_def)
  have e: "assemble_pdf pe images out_pdf = Inl e \<longrightarrow> e = RuntimeError CannotAssemble"
    by (auto simp: assemble_pdf_def split: if_splits dest: pillow_fallback_error)
  from a b c d e show ?thesis by blast
qed

theorem fallback_when_primary_raises_witness:
  "assemble_pdf \<lparr>img2pdf_installed = False, img2pdf_raises = \<lambda>ps out. False,
       pillow_installed = False, pillow_open_raises = \<lambda>p. False,
       pillow_save_raises = \<lambda>f r out. False\<rparr> [''a'', ''b''] ''o'' =
     Inl (RuntimeError CannotAssemble)"
proof -
  let ?pe = "\<lparr>img2pdf_installed = False, img2pdf_raises = \<lambda>ps out. False,
       pillow_installed = False, pillow_open_raises = \<lambda>p. False,
       pillow_save_raises = \<lambda>f r out. False\<rparr>"
  have "\<not> img2pdf_installed ?pe \<and> \<not> pillow_installed ?pe" by simp
  with fallback_when_primary_raises[of ?pe "[''a'', ''b'']" "''o''"] show ?thesis by blast
qed

text \<open>
  The fallback is not reserved to an environment without \<^verbatim>\<open>img2pdf\<close>: with the library
  installed and its conversion raising on the images, the document is Pillow's.
\<close>

theorem fallback_with_primary_installed_counterexample:
  "img2pdf_installed \<lparr>img2pdf_installed = True, img2pdf_raises = \<lambda>ps out. True,
       pillow_installed = True, pillow_open_raises = \<lambda>p. False,
       pillow_save_raises = \<lambda>f r out. False\<rparr> \<and>
   assemble_pdf \<lparr>img2pdf_installed = True, img2pdf_raises = \<lambda>ps out. True,
       pillow_installed = True, pillow_open_raises = \<lambda>p. False,
       pillow_save_raises = \<lambda>f r out. False\<rparr> [''a'', ''b''] ''o'' =
     Inr (PillowDoc ''a'' [''b''])"
  by (simp add: assemble_pdf_def pillow_fallback_def)

section \<open>Guards of the cleanup\<close>

text \<open>
  Claim C6. When the condition of deletion fails, \<^verbatim>\<open>safe_rmtree\<close> returns \<open>False\<close>,
  raises nothing and leaves the tree as it is; so the tree changes, or the result is
  anything but \<open>False\<close>, only under the condition. A work directory that is the home
  directory is refused whatever its name. Under the condition, when \<^verbatim>\<open>rmtree\<close> ends
  without an error, the result is \<open>True\<close> and the directory and all below it are gone.
\<close>

theorem safe_rmtree_guards:
  "(\<not> deletion_allowed oe workdir ark \<longrightarrow>
      safe_rmtree oe workdir ark tree = (Inr False, tree)) \<and>
   (snd (safe_rmtree oe workdir ark tree) \<noteq> tree \<longrightarrow> deletion_allowed oe workdir ark) \<and>
   (fst (safe_rmtree oe workdir ark tree) \<noteq> Inr False \<longrightarrow> deletion_allowed oe workdir ark) \<and>
   (workdir = home oe \<longrightarrow> safe_rmtree oe workdir ark tree = (Inr False, tree)) \<and>
   (deletion_allowed oe workdir ark \<and> rmtree_stops oe (resolve oe workdir) = None \<longrightarrow>
      safe_rmtree oe workdir ark tree =
        (Inr True, {p \<in> tree. \<not> prefix (resolve oe workdir) p}))"
  by (auto simp: safe_rmtree_def deletion_allowed_def Let_def rmtree_def split: option.splits)


theorem safe_rmtree_guards_witness:
  "safe_rmtree
     \<lparr>resolve = (\<lambda>s. if s = ''/'' then []
                     else if s = ''/home/gallica_x'' then [''home'', ''gallica_x'']
                     else if s = ''/work'' then [''work'']
                     else if s = ''gallica_x'' then [''work'', ''gallica_x'']
                     else [''work'', s]),
      home = ''/home/gallica_x'', cwd = ''/work'', rmtree_stops = (\<lambda>d. None)\<rparr>
     ''/home/gallica_x'' ''x'' {[''home'', ''gallica_x''], [''work''], [''work'', ''gallica_x'']} =
     (Inr False, {[''home'', ''gallica_x''], [''work''], [''work'', ''gallica_x'']}) \<and>
   fst (safe_rmtree
     \<lparr>resolve = (\<lambda>s. if s = ''/'' then []
                     else if s = ''/home/gallica_x'' then [''home'', ''gallica_x'']
                     else if s = ''/work'' then [''work'']
                     else if s = ''gallica_x'' then [''work'', ''gallica_x'']
                     else [''work'', s]),
      home = ''/home/gallica_x'', cwd = ''/work'', rmtree_stops = (\<lambda>d. None)\<rparr>
     ''gallica_x'' ''x'' {[''home'', ''gallica_x''], [''work''], [''work'', ''gallica_x'']}) = Inr True \<and>
   [''work'', ''gallica_x''] \<notin> snd (safe_rmtree
     \<lparr>resolve = (\<lambda>s. if s = ''/'' then []
                     else if s = ''/home/gallica_x'' then [''home'', ''gallica_x'']
                     else if s = ''/work'' then [''work'']
                     else if s = ''gallica_x'' then [''work'', ''gallica_x'']
                     else [''work'', s]),
      home = ''/home/gallica_x'', cwd = ''/work'', rmtree_stops = (\<lambda>d. None)\<rparr>
     ''gallica_x'' ''x'' {[''home'', ''gallica_x''], [''work''], [''work'', ''gallica_x'']})"
proof -
  let ?oe = "\<lparr>resolve = (\<lambda>s. if s = ''/'' then []
                     else if s = ''/home/gallica_x'' then [''home'', ''gallica_x'']
                     else if s = ''/work'' then [''work'']
                     else if s = ''gallica_x'' then [''work'', ''gallica_x'']
                     else [''work'', s]),
      home = ''/home/gallica_x'', cwd = ''/work'', rmtree_stops = (\<lambda>d. None)\<rparr>"
  let ?tree = "{[''home'', ''gallica_x''], [''work''], [''work'', ''gallica_x'']}"
  have refused: "\<not> deletion_allowed ?oe ''/home/gallica_x'' ''x''"
    by (simp add: deletion_allowed_def)
  have allowed: "deletion_allowed ?oe ''gallica_x'' ''x'' \<and>
                 rmtree_stops ?oe (resolve ?oe ''gallica_x'') = None"
    by (simp add: deletion_allowed_def path_name_def)
  from safe_rmtree_guards[of ?oe "''/home/gallica_x''" "''x''" ?tree] refused
  have r1: "safe_rmtree ?oe ''/home/gallica_x'' ''x'' ?tree = (Inr False, ?tree)" by blast
  from safe_rmtree_guards[of ?oe "''gallica_x''" "''x''" ?tree] allowed
  have r2: "safe_rmtree ?oe ''gallica_x'' ''x'' ?tree =
              (Inr True, {p \<in> ?tree. \<not> prefix (resolve ?oe ''gallica_x'') p})" by blast
  show ?thesis unfolding r2 using r1 by simp
qed

section \<open>The image service of a canvas\<close>

text \<open>
  Claim C5. The claim is that a canvas without an identifier on either path ends in the
  error "no image service found", and that no absent identifier is ever returned. The
  function does otherwise on the canvas
  \<^verbatim>\<open>{"items": [{"items": [{"body": {"service": [{}]}}]}]}\<close>: the v3 branch returns
  \<^verbatim>\<open>svc[0].get("id") or svc[0].get("@id")\<close> without the test \<^verbatim>\<open>if sid:\<close> that the v2
  branch makes, so the result is \<^verbatim>\<open>None\<close>, on which \<^verbatim>\<open>iiif_jpg_url\<close> then raises an
  \<^verbatim>\<open>AttributeError\<close>. The v2 branch is outside the \<^verbatim>\<open>try\<close>: on
  \<^verbatim>\<open>{"images": ["x"]}\<close> an \<^verbatim>\<open>AttributeError\<close> escapes instead of the error of the claim.
\<close>

theorem canvas_service_id_may_be_none:
  "canvas_image_service_id
     (JObj [(''items'', JArr [JObj [(''items'', JArr [JObj [(''body'',
        JObj [(''service'', JArr [JObj []])])]])]])]) = Inr JNull \<and>
   iiif_jpg_url JNull 2000 = Inl AttributeError \<and>
   canvas_image_service_id (JObj [(''images'', JArr [JStr ''x''])]) = Inl AttributeError"
  by (simp add: canvas_image_service_id_def v3_service_id_def v2_service_id_def)

section \<open>The ARK of a URL\<close>

lemma ark_match_here_None:
  "ark_match_here s = None \<longleftrightarrow>
     \<not> (ci_match ark_prefix s \<and> drop (length ark_prefix) s \<noteq> []
        \<and> \<not> delim (hd (drop (length ark_prefix) s)))"
  by (cases "drop (length ark_prefix) s") (auto simp: ark_match_here_def Let_def)

lemma no_match_at_iff: "no_match_at url j \<longleftrightarrow> ark_match_here (drop j url) = None"
  by (simp add: no_match_at_def ark_match_here_None add.commute)

lemma ark_search_skip:
  "\<forall>j<i. no_match_at url j \<Longrightarrow> i \<le> length url \<Longrightarrow> ark_search url = ark_search (drop i url)"
proof (induction url arbitrary: i)
  case Nil
  then show ?case by simp
next
  case (Cons c cs)
  show ?case
  proof (cases i)
    case 0
    then show ?thesis by simp
  next
    case (Suc k)
    have "no_match_at (c # cs) 0" using Cons.prems(1) Suc by blast
    then have here: "ark_match_here (c # cs) = None" by (simp add: no_match_at_iff)
    have "\<forall>j<k. no_match_at cs j"
    proof (intro allI impI)
      fix j assume "j < k"
      then have "no_match_at (c # cs) (Suc j)" using Cons.prems(1) Suc by simp
      then show "no_match_at cs j" by (simp add: no_match_at_iff)
    qed
    moreover have "k \<le> length cs" using Cons.prems(2) Suc by simp
    ultimately have "ark_search cs = ark_search (drop k cs)" by (rule Cons.IH)
    with here Suc show ?thesis by simp
  qed
qed

lemma ci_match_nonempty: "ci_match ark_prefix s \<Longrightarrow> s \<noteq> []"
  by (cases s) (auto simp: ark_prefix_def)

lemma occurs_at_match:
  assumes "occurs_at url i tok"
  shows "ark_match_here (drop i url) = Some tok"
proof -
  let ?t = "drop (i + length ark_prefix) url"
  let ?rest = "drop (i + length ark_prefix + length tok) url"
  from assms have m: "ci_match ark_prefix (drop i url)"
    and tk: "take (length tok) ?t = tok" and ne: "tok \<noteq> []"
    and nd: "\<forall>c \<in> set tok. \<not> delim c" and rs: "?rest = [] \<or> delim (hd ?rest)"
    by (auto simp: occurs_at_def Let_def list_all_iff)
  have split: "?t = tok @ ?rest"
    using tk append_take_drop_id[of "length tok" ?t] by (simp add: add.commute add.left_commute)
  have "takeWhile (\<lambda>c. \<not> delim c) (tok @ ?rest) = tok"
  proof (cases ?rest)
    case Nil
    then show ?thesis using nd by simp
  next
    case (Cons r rs')
    with rs have "delim r" by simp
    with Cons nd show ?thesis by (simp add: takeWhile_append2)
  qed
  with split have "takeWhile (\<lambda>c. \<not> delim c) ?t = tok" by simp
  moreover have "drop (length ark_prefix) (drop i url) = ?t" by (simp add: add.commute)
  ultimately show ?thesis using m ne by (simp add: ark_match_here_def Let_def)
qed

lemma ark_search_here:
  "ark_match_here s = Some g \<Longrightarrow> ark_search s = Some g"
  by (cases s) (auto simp: ark_match_here_def ark_prefix_def split: if_splits)

lemma ark_search_none:
  "\<forall>j<length url. no_match_at url j \<Longrightarrow> ark_search url = None"
proof (induction url)
  case Nil
  then show ?case by simp
next
  case (Cons c cs)
  have "no_match_at (c # cs) 0" using Cons.prems by simp
  then have here: "ark_match_here (c # cs) = None" by (simp add: no_match_at_iff)
  have "\<forall>j<length cs. no_match_at cs j"
  proof (intro allI impI)
    fix j assume "j < length cs"
    then have "no_match_at (c # cs) (Suc j)" using Cons.prems by simp
    then show "no_match_at cs j" by (simp add: no_match_at_iff)
  qed
  then have "ark_search cs = None" by (rule Cons.IH)
  with here show ?case by simp
qed

lemma occurs_at_bound: "occurs_at url i tok \<Longrightarrow> i \<le> length url"
  by (cases "i \<le> length url") (auto simp: occurs_at_def Let_def ark_prefix_def)

text \<open>
  Claim C7, as amended. When the pattern \<^verbatim>\<open>/ark:/12148/<token>\<close>, its letters in either
  case, occurs at a position with a non-empty token that ends at \<^verbatim>\<open>/\<close>, \<^verbatim>\<open>?\<close>, \<^verbatim>\<open>#\<close>
  or the end of the string, and no match starts before that position, the identifier is
  that token with the white space stripped at both ends. When no match starts at any
  position, the error of the unextractable identifier is raised. (The letter \<open>k\<close> of the
  pattern also matches the Kelvin sign U+212A, which is outside the characters modelled.)
\<close>

theorem ark_from_url_leftmost_match:
  "(occurs_at url i tok \<and> (\<forall>j<i. no_match_at url j) \<longrightarrow> ark_from_url url = Inr (strip tok)) \<and>
   ((\<forall>j<length url. no_match_at url j) \<longrightarrow> ark_from_url url = Inl ValueError)"
proof (intro conjI impI)
  assume a: "occurs_at url i tok \<and> (\<forall>j<i. no_match_at url j)"
  then have "ark_search url = ark_search (drop i url)"
    using ark_search_skip occurs_at_bound by blast
  also have "\<dots> = Some tok"
    using a occurs_at_match ark_search_here by blast
  finally show "ark_from_url url = Inr (strip tok)" by (simp add: ark_from_url_def)
next
  assume "\<forall>j<length url. no_match_at url j"
  then have "ark_search url = None" by (rule ark_search_none)
  then show "ark_from_url url = Inl ValueError" by (simp add: ark_from_url_def)
qed

text \<open>
  The claim as stated fails twice. A string with two occurrences contains the pattern
  with the token of the second one, and the first one's token is returned. A string
  with the pattern in upper case lacks the pattern as written, and an identifier is
  returned all the same.
\<close>

theorem ark_from_url_counterexample:
  "spec_occurs_at ''/ark:/12148/a/ark:/12148/b'' 13 ''b'' \<and>
   ark_from_url ''/ark:/12148/a/ark:/12148/b'' = Inr ''a'' \<and>
   spec_lacks_pattern ''/ARK:/12148/abc'' \<and>
   ark_from_url ''/ARK:/12148/abc'' = Inr ''abc''"
  by code_simp


lemma all_less_list_all: "(\<forall>j<n. P j) \<longleftrightarrow> list_all P [0..<n]"
  by (auto simp: list_all_iff)

theorem ark_from_url_leftmost_match_witness:
  "ark_from_url ''https://gallica.bnf.fr/ark:/12148/bd6t54208770t?rk=107296;4'' =
     Inr ''bd6t54208770t'' \<and>
   ark_from_url ''https://gallica.bnf.fr/services/engine'' = Inl ValueError"
proof -
  let ?u = "''https://gallica.bnf.fr/ark:/12148/bd6t54208770t?rk=107296;4''"
  let ?v = "''https://gallica.bnf.fr/services/engine''"
  have occ: "occurs_at ?u 22 ''bd6t54208770t''" by code_simp
  have "list_all (no_match_at ?u) [0..<22]" by code_simp
  then have left: "\<forall>j<22. no_match_at ?u j" by (simp only: all_less_list_all)
  have "list_all (no_match_at ?v) [0..<length ?v]" by code_simp
  then have none: "\<forall>j<length ?v. no_match_at ?v j" by (simp only: all_less_list_all)
  have st: "strip ''bd6t54208770t'' = ''bd6t54208770t''" by code_simp
  from ark_from_url_leftmost_match[of ?u 22 "''bd6t54208770t''"] occ left
  have r1: "ark_from_url ?u = Inr (strip ''bd6t54208770t'')" by blast
  from ark_from_url_leftmost_match[of ?v 0 "[]"] none
  have r2: "ark_from_url ?v = Inl ValueError" by blast
  from r1 r2 st show ?thesis by simp
qed

section \<open>Strategies of the manifest resolver\<close>

lemma session_get_world:
  "snd (session_get env u s w) = w\<lparr>trace := trace w @ [Get u]\<rparr>"
  by (simp add: session_get_def)

lemma fetch_world:
  "snd (fetch env u b w) = w\<lparr>trace := trace w @ [Get u]\<rparr>"
  by (auto simp: fetch_def session_get_def split: option.splits sum.splits)

lemma warmup_loop_prefix:
  "prefix (trace w) (trace (snd (warmup_loop env us last_err w)))"
proof (induction us arbitrary: last_err w)
  case Nil
  then show ?case by (simp split: option.splits)
next
  case (Cons u us)
  obtain res w1 where sg: "session_get env u False w = (res, w1)" by (cases "session_get env u False w")
  then have w1: "w1 = w\<lparr>trace := trace w @ [Get u]\<rparr>"
    using session_get_world[of env u False w] by simp
  show ?case
  proof (cases res)
    case (Inr r)
    with sg w1 show ?thesis by simp
  next
    case (Inl e)
    have "prefix (trace w) (trace w1)" by (simp add: w1)
    also have "prefix (trace w1) (trace (snd (warmup_loop env us (Some e) w1)))"
      by (rule Cons.IH)
    finally show ?thesis using sg Inl by simp
  qed
qed

lemma warmup_first_request:
  "prefix (trace w @ [Get (hd (viewer_urls ark))]) (trace (snd (warmup env ark w)))"
proof -
  let ?u1 = "''https://gallica.bnf.fr/ark:/12148/'' @ ark @ ''/f1.item''"
  let ?u2 = "''https://gallica.bnf.fr/ark:/12148/'' @ ark"
  obtain res w1 where sg: "session_get env ?u1 False w = (res, w1)"
    by (cases "session_get env ?u1 False w")
  then have w1: "w1 = w\<lparr>trace := trace w @ [Get ?u1]\<rparr>"
    using session_get_world[of env ?u1 False w] by simp
  show ?thesis
  proof (cases res)
    case (Inr r)
    with sg w1 show ?thesis by (simp add: warmup_def viewer_urls_def)
  next
    case (Inl e)
    have "prefix (trace w1) (trace (snd (warmup_loop env [?u2] (Some e) w1)))"
      by (rule warmup_loop_prefix)
    with sg Inl w1 show ?thesis by (simp add: warmup_def viewer_urls_def)
  qed
qed

lemma warmup_round_start:
  "prefix (trace w @ [Sleep (7 / 10 * real k), Get (hd (viewer_urls ark))])
     (trace (snd (warmup_round env ark k w)))"
proof -
  let ?w0 = "time_sleep (7 / 10 * real k) w"
  have t0: "trace ?w0 = trace w @ [Sleep (7 / 10 * real k)]" by (simp add: time_sleep_def)
  obtain res w1 where wu: "warmup env ark ?w0 = (res, w1)" by (cases "warmup env ark ?w0")
  have p1: "prefix (trace w @ [Sleep (7 / 10 * real k), Get (hd (viewer_urls ark))]) (trace w1)"
    using warmup_first_request[of ?w0 ark env] wu t0 by simp
  show ?thesis
  proof (cases res)
    case (Inl e)
    with wu p1 show ?thesis by (simp add: warmup_round_def Let_def)
  next
    case (Inr u)
    have "prefix (trace w1) (trace (snd (fetch env (manifest_url ark) True w1)))"
      by (simp add: fetch_world)
    with p1 have "prefix (trace w @ [Sleep (7 / 10 * real k), Get (hd (viewer_urls ark))])
                    (trace (snd (fetch env (manifest_url ark) True w1)))"
      by (rule prefix_order.trans)
    with wu Inr show ?thesis
      by (auto simp: warmup_round_def Let_def split: prod.splits sum.splits)
  qed
qed

lemma warmup_round_prefix: "prefix (trace w) (trace (snd (warmup_round env ark k w)))"
  using warmup_round_start[of w k ark env] by (auto simp: prefix_def)

lemma html_attempt_prefix: "prefix (trace w) (trace (snd (html_attempt env u w)))"
proof -
  obtain res w1 where sg: "session_get env u False w = (res, w1)"
    by (cases "session_get env u False w")
  then have w1: "w1 = w\<lparr>trace := trace w @ [Get u]\<rparr>"
    using session_get_world[of env u False w] by simp
  then have p1: "prefix (trace w) (trace w1)" by simp
  show ?thesis
  proof (cases "\<exists>rr alt. res = Inr rr \<and> raise_for_status rr = Inr () \<and>
                  extract_manifest_from_html (content rr) = Some alt")
    case False
    then have "snd (html_attempt env u w) = w1"
      using sg by (auto simp: html_attempt_def split: sum.splits option.splits)
    with p1 show ?thesis by simp
  next
    case True
    then obtain rr alt where rr: "res = Inr rr" "raise_for_status rr = Inr ()"
        "extract_manifest_from_html (content rr) = Some alt" by blast
    have "snd (html_attempt env u w) = snd (fetch env alt True w1)"
      using sg rr by (auto simp: html_attempt_def split: prod.splits sum.splits)
    then have "trace (snd (html_attempt env u w)) = trace w1 @ [Get alt]"
      by (simp add: fetch_world)
    with w1 show ?thesis by simp
  qed
qed


lemma first_return_prefix:
  assumes "\<And>x w. prefix (trace w) (trace (snd (body x w)))"
  shows "prefix (trace w) (trace (snd (first_return body xs w)))"
proof (induction xs arbitrary: w)
  case Nil
  show ?case by simp
next
  case (Cons x xs)
  obtain res w1 where b: "body x w = (res, w1)" by (cases "body x w")
  have p1: "prefix (trace w) (trace w1)" using assms[of w x] b by simp
  show ?case
  proof (cases res)
    case None
    have "prefix (trace w1) (trace (snd (first_return body xs w1)))" by (rule Cons.IH)
    with p1 have "prefix (trace w) (trace (snd (first_return body xs w1)))"
      by (rule prefix_order.trans)
    with b None show ?thesis by simp
  next
    case (Some j)
    with b p1 show ?thesis by simp
  qed
qed

lemma html_fallback_prefix: "prefix (trace w) (trace (snd (html_fallback env ark w)))"
proof -
  have "prefix (trace w) (trace (snd (first_return (html_attempt env) (viewer_urls ark) w)))"
    by (rule first_return_prefix) (rule html_attempt_prefix)
  then show ?thesis
    by (auto simp: html_fallback_def split: prod.splits option.splits)
qed

lemma rounds_prefix:
  "prefix (trace w) (trace (snd (first_return (warmup_round env ark) ks w)))"
  by (rule first_return_prefix) (rule warmup_round_prefix)

lemma upt_1_4: "[1..<4] = [1, 2, 3::nat]"
  by (simp add: upt_rec)

lemma get_manifest_direct_first:
  "prefix (trace w @ [Get (manifest_url ark)]) (trace (snd (get_manifest env ark w)))"
proof -
  obtain res w1 where f: "fetch env (manifest_url ark) True w = (res, w1)"
    by (cases "fetch env (manifest_url ark) True w")
  then have w1: "trace w1 = trace w @ [Get (manifest_url ark)]"
    using fetch_world[of env "manifest_url ark" True w] by simp
  show ?thesis
  proof (cases "res = Inl (HTTPError 403)")
    case False
    then have "snd (get_manifest env ark w) = w1"
      using f by (auto simp: get_manifest_def split: sum.splits error.splits)
    with w1 show ?thesis by simp
  next
    case True
    obtain r2 w2 where rr: "first_return (warmup_round env ark) [1..<4] w1 = (r2, w2)"
      by (cases "first_return (warmup_round env ark) [1..<4] w1")
    have p2: "prefix (trace w1) (trace w2)"
      using rounds_prefix[of w1 env ark "[1..<4]"] rr by simp
    show ?thesis
    proof (cases r2)
      case (Some j)
      with True f rr have "snd (get_manifest env ark w) = w2"
        by (simp add: get_manifest_def)
      with p2 w1 show ?thesis by simp
    next
      case None
      with True f rr have "snd (get_manifest env ark w) = snd (html_fallback env ark w2)"
        by (simp add: get_manifest_def)
      moreover have "prefix (trace w2) (trace (snd (html_fallback env ark w2)))"
        by (rule html_fallback_prefix)
      ultimately show ?thesis using p2 w1 by (metis prefix_order.trans)
    qed
  qed
qed

lemma get_manifest_other_status:
  assumes "server env (length (trace w)) (manifest_url ark) = Some r" "complete r"
    and "400 \<le> status r" "status r < 600" "status r \<noteq> 403"
  shows "get_manifest env ark w =
           (Inl (HTTPError (status r)), w\<lparr>trace := trace w @ [Get (manifest_url ark)]\<rparr>)"
  using assms by (simp add: get_manifest_def fetch_def session_get_def raise_for_status_def)

lemma first_return_three:
  "first_return body [a, b, c] w =
     (case body a w of
        (Some j, w2) \<Rightarrow> (Some j, w2)
      | (None, w2) \<Rightarrow>
          (case body b w2 of
             (Some j, w3) \<Rightarrow> (Some j, w3)
           | (None, w3) \<Rightarrow> body c w3))"
  by (auto split: prod.splits option.splits)

lemma get_manifest_403:
  assumes "server env (length (trace w)) (manifest_url ark) = Some r" "complete r"
    and "status r = 403"
  shows "get_manifest env ark w =
           (case warmup_round env ark 1 (w\<lparr>trace := trace w @ [Get (manifest_url ark)]\<rparr>) of
              (Some j, w2) \<Rightarrow> (Inr j, w2)
            | (None, w2) \<Rightarrow>
                (case warmup_round env ark 2 w2 of
                   (Some j, w3) \<Rightarrow> (Inr j, w3)
                 | (None, w3) \<Rightarrow>
                     (case warmup_round env ark 3 w3 of
                        (Some j, w4) \<Rightarrow> (Inr j, w4)
                      | (None, w4) \<Rightarrow> html_fallback env ark w4)))"
proof -
  let ?w1 = "w\<lparr>trace := trace w @ [Get (manifest_url ark)]\<rparr>"
  have f: "fetch env (manifest_url ark) True w = (Inl (HTTPError 403), ?w1)"
    using assms by (simp add: fetch_def session_get_def raise_for_status_def)
  have "get_manifest env ark w =
          (case first_return (warmup_round env ark) [1, 2, 3] ?w1 of
             (Some j, w2) \<Rightarrow> (Inr j, w2)
           | (None, w2) \<Rightarrow> html_fallback env ark w2)"
    unfolding get_manifest_def upt_1_4 f by simp
  also have "\<dots> =
           (case warmup_round env ark 1 ?w1 of
              (Some j, w2) \<Rightarrow> (Inr j, w2)
            | (None, w2) \<Rightarrow>
                (case warmup_round env ark 2 w2 of
                   (Some j, w3) \<Rightarrow> (Inr j, w3)
                 | (None, w3) \<Rightarrow>
                     (case warmup_round env ark 3 w3 of
                        (Some j, w4) \<Rightarrow> (Inr j, w4)
                      | (None, w4) \<Rightarrow> html_fallback env ark w4)))"
    unfolding first_return_three by (simp split: prod.splits option.splits)
  finally show ?thesis .
qed

lemma warmup_raises:
  assumes "fst (warmup env ark w) = Inl e"
  shows "snd (warmup env ark w) = w\<lparr>trace := trace w @ map Get (viewer_urls ark)\<rparr>"
  using assms
  by (auto simp: warmup_def viewer_urls_def session_get_def split: option.splits if_splits)

lemma warmup_round_no_retry:
  assumes "fst (warmup env ark (time_sleep (7 / 10 * real k) w)) = Inl e"
  shows "warmup_round env ark k w =
           (None, w\<lparr>trace := trace w @ Sleep (7 / 10 * real k) # map Get (viewer_urls ark)\<rparr>)"
proof -
  let ?w0 = "time_sleep (7 / 10 * real k) w"
  obtain res w1 where wu: "warmup env ark ?w0 = (res, w1)" by (cases "warmup env ark ?w0")
  with assms have res: "res = Inl e" by simp
  have "w1 = ?w0\<lparr>trace := trace ?w0 @ map Get (viewer_urls ark)\<rparr>"
    using warmup_raises[OF assms] wu by simp
  then have "w1 = w\<lparr>trace := trace w @ Sleep (7 / 10 * real k) # map Get (viewer_urls ark)\<rparr>"
    by (simp add: time_sleep_def)
  with wu res show ?thesis by (simp add: warmup_round_def Let_def)
qed


lemma warmup_round_retry:
  assumes "fst (warmup env ark (time_sleep (7 / 10 * real k) w)) = Inr ()"
  shows "warmup_round env ark k w =
           (case fetch env (manifest_url ark) True (snd (warmup env ark (time_sleep (7 / 10 * real k) w))) of
              (Inl e, w2) \<Rightarrow> (None, w2)
            | (Inr r, w2) \<Rightarrow> (decoded r, w2))"
proof -
  let ?w0 = "time_sleep (7 / 10 * real k) w"
  obtain res w1 where wu: "warmup env ark ?w0 = (res, w1)" by (cases "warmup env ark ?w0")
  with assms have res: "res = Inr ()" by simp
  show ?thesis
    using wu res
    by (auto simp: warmup_round_def Let_def response_json_def
        split: prod.splits sum.splits option.splits)
qed

text \<open>
  Claim C2, as amended. The first request of \<^verbatim>\<open>get_manifest\<close> is the direct manifest
  URL. When its answer is an HTTP error status other than 403, that error is raised at
  once and nothing else is requested. When its answer is 403, up to three rounds follow,
  numbered 1, 2, 3, a round that returns a manifest ending the search, and after three
  rounds without one the HTML fallback runs. Round \<open>k\<close> first sleeps \<open>0.7 * k\<close> seconds
  and then requests the viewer page; when the warm-up did not raise it retries the
  direct fetch, and when the warm-up raised (both viewer requests failed) the round ends
  without retrying the direct fetch.
\<close>

theorem get_manifest_strategies:
  "prefix (trace w @ [Get (manifest_url ark)]) (trace (snd (get_manifest env ark w))) \<and>
   (server env (length (trace w)) (manifest_url ark) = Some r \<and> complete r \<and>
    400 \<le> status r \<and> status r < 600 \<and> status r \<noteq> 403 \<longrightarrow>
      get_manifest env ark w =
        (Inl (HTTPError (status r)), w\<lparr>trace := trace w @ [Get (manifest_url ark)]\<rparr>)) \<and>
   (server env (length (trace w)) (manifest_url ark) = Some r \<and> complete r \<and> status r = 403 \<longrightarrow>
      get_manifest env ark w =
        (case warmup_round env ark 1 (w\<lparr>trace := trace w @ [Get (manifest_url ark)]\<rparr>) of
           (Some j, w2) \<Rightarrow> (Inr j, w2)
         | (None, w2) \<Rightarrow>
             (case warmup_round env ark 2 w2 of
                (Some j, w3) \<Rightarrow> (Inr j, w3)
              | (None, w3) \<Rightarrow>
                  (case warmup_round env ark 3 w3 of
                     (Some j, w4) \<Rightarrow> (Inr j, w4)
                   | (None, w4) \<Rightarrow> html_fallback env ark w4)))) \<and>
   prefix (trace v @ [Sleep (7 / 10 * real k), Get (hd (viewer_urls ark))])
     (trace (snd (warmup_round env ark k v))) \<and>
   (fst (warmup env ark (time_sleep (7 / 10 * real k) v)) = Inr () \<longrightarrow>
      warmup_round env ark k v =
        (case fetch env (manifest_url ark) True
                (snd (warmup env ark (time_sleep (7 / 10 * real k) v))) of
           (Inl e, w2) \<Rightarrow> (None, w2)
         | (Inr r, w2) \<Rightarrow> (decoded r, w2))) \<and>
   (fst (warmup env ark (time_sleep (7 / 10 * real k) v)) = Inl e \<longrightarrow>
      warmup_round env ark k v =
        (None, v\<lparr>trace := trace v @ Sleep (7 / 10 * real k) # map Get (viewer_urls ark)\<rparr>))"
  using get_manifest_direct_first[of w ark env] get_manifest_other_status[of env w ark r]
    get_manifest_403[of env w ark r] warmup_round_start[of v k ark env]
    warmup_round_retry[of env ark k v] warmup_round_no_retry[of env ark k v e]
  by blast


theorem get_manifest_strategies_witness:
  "get_manifest
     \<lparr>server = \<lambda>t u. if t = 0 then Some (Response 403 [] None True)
                       else Some (Response 200 [] (Some (JObj [])) True),
      rand = \<lambda>t. 0\<rparr> ''x'' \<lparr>files = Map.empty, trace = []\<rparr> =
     (Inr (JObj []),
      \<lparr>files = Map.empty,
         trace = [Get (manifest_url ''x''), Sleep (7 / 10), Get (hd (viewer_urls ''x'')),
                  Get (manifest_url ''x'')]\<rparr>) \<and>
   get_manifest \<lparr>server = \<lambda>t u. Some (Response 500 [] None True), rand = \<lambda>t. 0\<rparr> ''x''
       \<lparr>files = Map.empty, trace = []\<rparr> =
     (Inl (HTTPError 500), \<lparr>files = Map.empty, trace = [Get (manifest_url ''x'')]\<rparr>)"
proof -
  let ?e1 = "\<lparr>server = \<lambda>t u. if t = 0 then Some (Response 403 [] None True)
                       else Some (Response 200 [] (Some (JObj [])) True),
      rand = \<lambda>t. 0 :: real\<rparr>"
  let ?e2 = "\<lparr>server = \<lambda>t u. Some (Response 500 [] None True), rand = \<lambda>t. 0 :: real\<rparr>"
  let ?w = "\<lparr>files = Map.empty, trace = []\<rparr> :: world"
  let ?w1 = "?w\<lparr>trace := trace ?w @ [Get (manifest_url ''x'')]\<rparr>"
  have h1: "server ?e1 (length (trace ?w)) (manifest_url ''x'') = Some (Response 403 [] None True) \<and>
            complete (Response 403 [] None True) \<and> status (Response 403 [] None True) = 403"
    by simp
  have h2: "server ?e2 (length (trace ?w)) (manifest_url ''x'') = Some (Response 500 [] None True) \<and>
            complete (Response 500 [] None True) \<and> 400 \<le> status (Response 500 [] None True) \<and>
            status (Response 500 [] None True) < 600 \<and> status (Response 500 [] None True) \<noteq> 403"
    by simp
  have round: "warmup_round ?e1 ''x'' 1 ?w1 =
      (Some (JObj []),
       \<lparr>files = Map.empty,
          trace = [Get (manifest_url ''x''), Sleep (7 / 10), Get (hd (viewer_urls ''x'')),
                   Get (manifest_url ''x'')]\<rparr>)"
    by (simp add: warmup_round_def time_sleep_def warmup_def viewer_urls_def session_get_def
        fetch_def raise_for_status_def response_json_def)
  from get_manifest_strategies[of ?w "''x''" ?e1 "Response 403 [] None True"] h1
  have "get_manifest ?e1 ''x'' ?w =
        (case warmup_round ?e1 ''x'' 1 ?w1 of
           (Some j, w2) \<Rightarrow> (Inr j, w2)
         | (None, w2) \<Rightarrow>
             (case warmup_round ?e1 ''x'' 2 w2 of
                (Some j, w3) \<Rightarrow> (Inr j, w3)
              | (None, w3) \<Rightarrow>
                  (case warmup_round ?e1 ''x'' 3 w3 of
                     (Some j, w4) \<Rightarrow> (Inr j, w4)
                   | (None, w4) \<Rightarrow> html_fallback ?e1 ''x'' w4)))"
    by blast
  then have r1: "get_manifest ?e1 ''x'' ?w =
     (Inr (JObj []),
      \<lparr>files = Map.empty,
         trace = [Get (manifest_url ''x''), Sleep (7 / 10), Get (hd (viewer_urls ''x'')),
                  Get (manifest_url ''x'')]\<rparr>)"
    unfolding round by simp
  from get_manifest_strategies[of ?w "''x''" ?e2 "Response 500 [] None True"] h2
  have "get_manifest ?e2 ''x'' ?w =
        (Inl (HTTPError (status (Response 500 [] None True))), ?w1)"
    by blast
  then have r2: "get_manifest ?e2 ''x'' ?w =
     (Inl (HTTPError 500), \<lparr>files = Map.empty, trace = [Get (manifest_url ''x'')]\<rparr>)"
    by simp
  from r1 r2 show ?thesis by blast
qed

text \<open>
  A round does not always retry the direct fetch. With the manifest URL answering 403 and
  the viewer pages unreachable, the three rounds sleep 0.7, 1.4 and 2.1 seconds and
  request the viewer pages only: the manifest URL is requested once in the whole run,
  where a round as the specification words it would request it again.
\<close>

theorem warmup_round_counterexample:
  "requests_of (trace (snd (get_manifest
      \<lparr>server = \<lambda>t u. if u = manifest_url ''x'' then Some (Response 403 [] None True) else None,
         rand = \<lambda>t. 0\<rparr> ''x'' \<lparr>files = Map.empty, trace = []\<rparr>))) =
     manifest_url ''x'' # viewer_urls ''x'' @ viewer_urls ''x'' @ viewer_urls ''x'' @ viewer_urls ''x'' \<and>
   sleeps_of (trace (snd (get_manifest
      \<lparr>server = \<lambda>t u. if u = manifest_url ''x'' then Some (Response 403 [] None True) else None,
         rand = \<lambda>t. 0\<rparr> ''x'' \<lparr>files = Map.empty, trace = []\<rparr>))) = [7 / 10, 14 / 10, 21 / 10] \<and>
   requests_of (trace (snd (warmup_round
      \<lparr>server = \<lambda>t u. if u = manifest_url ''x'' then Some (Response 403 [] None True) else None,
         rand = \<lambda>t. 0\<rparr> ''x'' 1 \<lparr>files = Map.empty, trace = []\<rparr>))) = viewer_urls ''x'' \<and>
   requests_of (trace (snd (spec_warmup_round
      \<lparr>server = \<lambda>t u. if u = manifest_url ''x'' then Some (Response 403 [] None True) else None,
         rand = \<lambda>t. 0\<rparr> ''x'' 1 \<lparr>files = Map.empty, trace = []\<rparr>))) =
     viewer_urls ''x'' @ [manifest_url ''x'']"
  by (simp add: get_manifest_def fetch_def session_get_def raise_for_status_def upt_rec
      warmup_round_def spec_warmup_round_def time_sleep_def warmup_def viewer_urls_def
      manifest_url_def html_fallback_def html_attempt_def)

end
